theory Spec2Isabelle
  imports Main
begin

section \<open>Rate limiter (ratelimit.go)\<close>

text \<open>
  Go strings are byte sequences, modelled as \<^typ>\<open>string\<close>.  Go's \<open>int\<close> is taken to be
  64 bits wide (the platforms the Dockerfile builds for); signed arithmetic wraps around,
  which \<open>wrap64\<close> writes out.  A \<open>time.Time\<close> obtained from \<open>time.Now()\<close> carries a
  monotonic clock reading; it is modelled as that reading, an integer number of
  nanoseconds, and the clock is an explicit argument \<open>now\<close> of every operation.
\<close>

definition wrap64 :: "int \<Rightarrow> int" where
  "wrap64 x = (x + 9223372036854775808) mod 18446744073709551616 - 9223372036854775808"

definition maxDuration :: int where
  "maxDuration = 9223372036854775807"

definition minDuration :: int where
  "minDuration = - 9223372036854775808"

text \<open>\<open>Time.Sub\<close>: the difference in nanoseconds, saturating at the ends of \<open>Duration\<close>.\<close>

definition Sub :: "int \<Rightarrow> int \<Rightarrow> int" where
  "Sub t u = (let d = t - u in
     if d > maxDuration then maxDuration
     else if d < minDuration then minDuration
     else d)"

text \<open>
  \<open>int(d.Minutes())\<close>: \<open>Minutes\<close> returns the duration as a floating-point number of
  minutes and the conversion to \<open>int\<close> truncates toward zero.  The model takes the
  truncated quotient by the \<open>60 * 10^9\<close> nanoseconds of a minute, which is what the
  floating-point computation yields as long as its rounding does not reach the next
  integer (durations below about \<open>2^17\<close> minutes).
\<close>

definition Minutes_int :: "int \<Rightarrow> int" where
  "Minutes_int d = sgn d * (\<bar>d\<bar> div 60000000000)"

record Bucket =
  tokens :: int
  ts :: int

type_synonym buckets = "string \<rightharpoonup> Bucket"

definition bucket_key :: "string \<Rightarrow> string \<Rightarrow> string" where
  "bucket_key site ip = site @ ''|'' @ ip"

text \<open>
  \<open>Allow\<close> runs under the mutex \<open>bucketsMu\<close>, so a call is one atomic step on the map
  \<open>buckets\<close>; the model takes the map and returns the decision with the updated map.
  The parameter \<open>refillMins\<close> is not used by the body of the source function.
\<close>

definition Allow :: "int \<Rightarrow> buckets \<Rightarrow> string \<Rightarrow> string \<Rightarrow> int \<Rightarrow> int \<Rightarrow> bool \<times> buckets" where
  "Allow now bs site ip burst refillMins =
     (let key = bucket_key site ip in
      case bs key of
        None \<Rightarrow> (True, bs(key \<mapsto> \<lparr>tokens = burst, ts = now\<rparr>))
      | Some b \<Rightarrow>
          let refills = Minutes_int (Sub now (ts b));
              b1 = (if refills > 0
                    then let t = wrap64 (tokens b + refills)
                         in \<lparr>tokens = (if t > burst then burst else t), ts = now\<rparr>
                    else b)
          in if tokens b1 \<le> 0 then (False, bs(key \<mapsto> b1))
             else (True, bs(key \<mapsto> b1\<lparr>tokens := wrap64 (tokens b1 - 1)\<rparr>)))"

text \<open>A run of \<open>Allow\<close> calls for one (site, ip) pair, each with its own clock reading,
  burst and refill argument; the decisions are collected in call order.\<close>

fun Allow_seq :: "buckets \<Rightarrow> string \<Rightarrow> string \<Rightarrow> (int \<times> int \<times> int) list \<Rightarrow> bool list \<times> buckets" where
  "Allow_seq bs site ip [] = ([], bs)"
| "Allow_seq bs site ip ((now, burst, refillMins) # cs) =
     (let (r, bs1) = Allow now bs site ip burst refillMins;
          (rs, bs2) = Allow_seq bs1 site ip cs
      in (r # rs, bs2))"

text \<open>Calls of \<open>Allow\<close> for arbitrary pairs, all with the same burst \<open>B\<close>.\<close>

fun Allow_calls :: "buckets \<Rightarrow> int \<Rightarrow> (int \<times> string \<times> string \<times> int) list \<Rightarrow> buckets" where
  "Allow_calls bs B [] = bs"
| "Allow_calls bs B ((now, site, ip, refillMins) # cs) =
     Allow_calls (snd (Allow now bs site ip B refillMins)) B cs"

text \<open>Every bucket of the map holds between \<open>0\<close> and \<open>B\<close> tokens.\<close>

definition tokens_within :: "int \<Rightarrow> buckets \<Rightarrow> bool" where
  "tokens_within B bs = (\<forall>k b. bs k = Some b \<longrightarrow> 0 \<le> tokens b \<and> tokens b \<le> B)"

section \<open>Library functions the handler calls\<close>

text \<open>
  The functions of Go's standard library that \<open>handlers.go\<close> and \<open>config.go\<close> call are
  modelled on bytes.  Where the library works on runes the byte-level model agrees with
  it: the bytes the definitions look for are ASCII or the UTF-8 encodings of the white
  space runes, and UTF-8 never uses an ASCII byte inside a longer sequence.
\<close>

definition HasPrefix :: "string \<Rightarrow> string \<Rightarrow> bool" where
  "HasPrefix s prefix = (take (length prefix) s = prefix)"

definition TrimPrefix :: "string \<Rightarrow> string \<Rightarrow> string" where
  "TrimPrefix s prefix = (if HasPrefix s prefix then drop (length prefix) s else s)"

text \<open>
  \<open>unicode.IsSpace\<close>: the six ASCII white space characters, U+0085, U+00A0, U+1680,
  U+2000 to U+200A, U+2028, U+2029, U+202F, U+205F and U+3000, each as its UTF-8 bytes.
\<close>

definition spaceSeqs :: "string list" where
  "spaceSeqs =
     [[CHR 0x09], [CHR 0x0A], [CHR 0x0B], [CHR 0x0C], [CHR 0x0D], [CHR 0x20],
      [CHR 0xC2, CHR 0x85], [CHR 0xC2, CHR 0xA0], [CHR 0xE1, CHR 0x9A, CHR 0x80],
      [CHR 0xE2, CHR 0x80, CHR 0x80], [CHR 0xE2, CHR 0x80, CHR 0x81],
      [CHR 0xE2, CHR 0x80, CHR 0x82], [CHR 0xE2, CHR 0x80, CHR 0x83],
      [CHR 0xE2, CHR 0x80, CHR 0x84], [CHR 0xE2, CHR 0x80, CHR 0x85],
      [CHR 0xE2, CHR 0x80, CHR 0x86], [CHR 0xE2, CHR 0x80, CHR 0x87],
      [CHR 0xE2, CHR 0x80, CHR 0x88], [CHR 0xE2, CHR 0x80, CHR 0x89],
      [CHR 0xE2, CHR 0x80, CHR 0x8A], [CHR 0xE2, CHR 0x80, CHR 0xA8],
      [CHR 0xE2, CHR 0x80, CHR 0xA9], [CHR 0xE2, CHR 0x80, CHR 0xAF],
      [CHR 0xE2, CHR 0x81, CHR 0x9F], [CHR 0xE3, CHR 0x80, CHR 0x80]]"

text \<open>The length of the first of the sequences \<open>qs\<close> that the string starts with,
  \<open>0\<close> when it starts with none of them.\<close>

definition leadingSeq :: "string list \<Rightarrow> string \<Rightarrow> nat" where
  "leadingSeq qs s =
     (case filter (\<lambda>q. q \<noteq> [] \<and> HasPrefix s q) qs of [] \<Rightarrow> 0 | q # _ \<Rightarrow> length q)"

function stripLeading :: "string list \<Rightarrow> string \<Rightarrow> string" where
  "stripLeading qs s =
     (if leadingSeq qs s = 0 then s else stripLeading qs (drop (leadingSeq qs s) s))"
  by pat_completeness auto
termination
proof (relation "measure (\<lambda>(qs, s). length s)")
  show "wf (measure (\<lambda>(qs, s). length s))" by simp
next
  fix qs :: "string list" and s :: string
  assume n: "leadingSeq qs s \<noteq> 0"
  have "s \<noteq> []"
  proof
    assume "s = []"
    then have "filter (\<lambda>q. q \<noteq> [] \<and> HasPrefix s q) qs = []"
      by (auto simp: filter_empty_conv HasPrefix_def)
    then show False using n by (simp add: leadingSeq_def)
  qed
  then show "((qs, drop (leadingSeq qs s) s), (qs, s)) \<in> measure (\<lambda>(qs, s). length s)"
    using n by simp
qed

declare stripLeading.simps [simp del]

text \<open>\<open>strings.TrimSpace\<close>: leading white space is cut first, then trailing white space
  (the encodings read backwards from the end).\<close>

definition TrimSpace :: "string \<Rightarrow> string" where
  "TrimSpace s = rev (stripLeading (map rev spaceSeqs) (rev (stripLeading spaceSeqs s)))"

text \<open>
  \<open>strings.ToLower\<close> on the ASCII letters.  Go also maps letters beyond ASCII; the
  handler compares the result with a string of the characters \<open>0-9a-f\<close> only, and no
  rune beyond ASCII has a lower-case form among these, so the comparison is the same.
\<close>

definition ToLower :: "string \<Rightarrow> string" where
  "ToLower s =
     map (\<lambda>c. case map_of (zip ''ABCDEFGHIJKLMNOPQRSTUVWXYZ'' ''abcdefghijklmnopqrstuvwxyz'') c of
                None \<Rightarrow> c
              | Some l \<Rightarrow> l) s"

definition hexdigit :: "nat \<Rightarrow> char" where
  "hexdigit n = ''0123456789abcdef'' ! n"

text \<open>\<open>hex.EncodeToString\<close>: two lower-case hexadecimal digits for each byte.\<close>

definition EncodeToString :: "string \<Rightarrow> string" where
  "EncodeToString src =
     concat (map (\<lambda>b. [hexdigit ((of_char b :: nat) div 16), hexdigit ((of_char b :: nat) mod 16)]) src)"

subsection \<open>Regular expressions\<close>

text \<open>
  The part of Go's \<open>regexp\<close> syntax that \<open>emailRegex\<close> uses, with a matcher by
  derivatives.  \<open>MatchString\<close> on a pattern anchored by \<open>^\<close> and \<open>$\<close> (no flags) asks
  whether the whole string matches.
\<close>

datatype regex =
    Zero
  | One
  | Atom "char \<Rightarrow> bool"
  | Alt regex regex
  | Seq regex regex
  | Star regex

definition OneOrMore :: "regex \<Rightarrow> regex" where
  "OneOrMore r = Seq r (Star r)"

fun nullable :: "regex \<Rightarrow> bool" where
  "nullable Zero = False"
| "nullable One = True"
| "nullable (Atom P) = False"
| "nullable (Alt r s) = (nullable r \<or> nullable s)"
| "nullable (Seq r s) = (nullable r \<and> nullable s)"
| "nullable (Star r) = True"

fun deriv :: "char \<Rightarrow> regex \<Rightarrow> regex" where
  "deriv c Zero = Zero"
| "deriv c One = Zero"
| "deriv c (Atom P) = (if P c then One else Zero)"
| "deriv c (Alt r s) = Alt (deriv c r) (deriv c s)"
| "deriv c (Seq r s) =
     (if nullable r then Alt (Seq (deriv c r) s) (deriv c s) else Seq (deriv c r) s)"
| "deriv c (Star r) = Seq (deriv c r) (Star r)"

fun MatchString :: "regex \<Rightarrow> string \<Rightarrow> bool" where
  "MatchString r [] = nullable r"
| "MatchString r (c # cs) = MatchString (deriv c r) cs"

text \<open>The strings a regular expression denotes.\<close>

inductive_set star :: "string set \<Rightarrow> string set" for A :: "string set" where
  star_Nil: "[] \<in> star A"
| star_App: "u \<in> A \<Longrightarrow> v \<in> star A \<Longrightarrow> u @ v \<in> star A"

fun lang :: "regex \<Rightarrow> string set" where
  "lang Zero = {}"
| "lang One = {[]}"
| "lang (Atom P) = {[c] | c. P c}"
| "lang (Alt r s) = lang r \<union> lang s"
| "lang (Seq r s) = {u @ v | u v. u \<in> lang r \<and> v \<in> lang s}"
| "lang (Star r) = star (lang r)"

section \<open>Configuration and handler (config.go, handlers.go)\<close>

record SmtpCfg =
  Host :: string
  Port :: int
  User :: string
  Pass :: string
  SSL :: bool

record SiteCfg =
  Key :: string
  To :: string
  AllowedOrigins :: "string list"
  SubjectPrefix :: string
  Secret :: string
  SMTP :: "SmtpCfg option"
  FromAddr :: string

record Config =
  RateBurst :: int
  RateRefillMinutes :: int
  AllowJSON :: bool
  AllowForm :: bool
  MaxBodyKB :: int
  ListenAddr :: string
  Sites :: "string \<rightharpoonup> SiteCfg"

record ContactRequest =
  Name :: string
  Email :: string
  Message :: string
  Website :: string

text \<open>\<open>\s\<close> of Go's regexp syntax: tab, newline, form feed, carriage return, space.\<close>

definition reSpace :: "char \<Rightarrow> bool" where
  "reSpace c = (c = CHR 0x09 \<or> c = CHR 0x0A \<or> c = CHR 0x0C \<or> c = CHR 0x0D \<or> c = CHR 0x20)"

text \<open>The class \<open>[^@\s]\<close>.\<close>

definition notAtSpace :: "char \<Rightarrow> bool" where
  "notAtSpace c = (c \<noteq> CHR ''@'' \<and> \<not> reSpace c)"

text \<open>\<open>emailRegex = regexp.MustCompile(`^[^@\s]+@[^@\s]+\.[^@\s]+$`)\<close>\<close>

definition emailRegex :: regex where
  "emailRegex =
     Seq (OneOrMore (Atom notAtSpace))
       (Seq (Atom (\<lambda>c. c = CHR ''@''))
         (Seq (OneOrMore (Atom notAtSpace))
           (Seq (Atom (\<lambda>c. c = CHR ''.'')) (OneOrMore (Atom notAtSpace)))))"

text \<open>
  The parts of an \<open>http.Request\<close> the handler reads.  \<open>Header\<close> gives the first value of
  each header present.  \<open>Body\<close> holds the bytes the body stream delivers and \<open>BodyError\<close>
  tells whether the stream then ends with an error instead of the end of the input.
\<close>

record Request =
  Method :: string
  URL_Path :: string
  URL_RawQuery :: string
  Header :: "string \<rightharpoonup> string"
  RemoteAddr :: string
  Body :: string
  BodyError :: bool

text \<open>What the handler leaves in the \<open>http.ResponseWriter\<close>.\<close>

record Response =
  Status :: nat
  RHeader :: "string \<rightharpoonup> string"
  Written :: string

text \<open>The fields of \<open>email.Email\<close> (package \<open>jordan-wright/email\<close>) the handler sets.\<close>

record EmailMsg =
  Email_From :: string
  Email_To :: "string list"
  Email_ReplyTo :: "string list"
  Email_Subject :: string
  Email_Text :: string

text \<open>
  Code outside the repository, taken as parameters: HMAC-SHA256 from \<open>crypto/hmac\<close> and
  \<open>crypto/sha256\<close> (key first, then message), the JSON decoder applied to a zero
  \<open>ContactRequest\<close> (\<open>None\<close> when it returns an error), \<open>Request.ParseForm\<close> as a function
  of the Content-Type header, the raw query and the body, giving \<open>r.Form.Get\<close> (\<open>None\<close>
  when it returns an error), the host part from \<open>net.SplitHostPort\<close>, and the sender
  \<open>sendEmailFunc\<close>, whose result is the error it returns, if any.
\<close>

record Deps =
  hmac_sha256 :: "string \<Rightarrow> string \<Rightarrow> string"
  json_Decode :: "string \<Rightarrow> ContactRequest option"
  ParseForm :: "string \<Rightarrow> string \<Rightarrow> string \<Rightarrow> (string \<Rightarrow> string) option"
  SplitHostPort :: "string \<Rightarrow> string"
  sendEmailFunc :: "SiteCfg \<Rightarrow> EmailMsg \<Rightarrow> string option"

definition Header_Get :: "(string \<rightharpoonup> string) \<Rightarrow> string \<Rightarrow> string" where
  "Header_Get h k = (case h k of None \<Rightarrow> [] | Some v \<Rightarrow> v)"

text \<open>\<open>http.Error\<close>: drops Content-Length, sets two headers, writes the status and the
  message followed by a newline.\<close>

definition http_Error :: "(string \<rightharpoonup> string) \<Rightarrow> string \<Rightarrow> nat \<Rightarrow> Response" where
  "http_Error h msg code =
     \<lparr>Status = code,
      RHeader = (h(''Content-Length'' := None))
                  (''Content-Type'' \<mapsto> ''text/plain; charset=utf-8'',
                   ''X-Content-Type-Options'' \<mapsto> ''nosniff''),
      Written = msg @ [CHR 0x0A]\<rparr>"

definition clientIP :: "Deps \<Rightarrow> Request \<Rightarrow> string" where
  "clientIP deps r =
     (let xf = Header_Get (Header r) ''X-Forwarded-For'' in
      if xf \<noteq> [] then TrimSpace (takeWhile (\<lambda>c. c \<noteq> CHR '','') xf)
      else SplitHostPort deps (RemoteAddr r))"

definition verifyHMAC :: "Deps \<Rightarrow> string \<Rightarrow> string \<Rightarrow> string \<Rightarrow> bool" where
  "verifyHMAC deps body secret hexSig =
     (if secret = [] \<or> hexSig = [] then False
      else let sum = hmac_sha256 deps secret body;
               want = ToLower (EncodeToString sum);
               have = ToLower hexSig
           in want = have)"

text \<open>
  \<open>HandleContact\<close> is one function with an early return at every check.  The model names
  its consecutive blocks and chains them in the order of the source.  Lines 39 to 63:
  preflight, method, site key, site lookup.
\<close>

definition resolve_site :: "Config \<Rightarrow> Request \<Rightarrow> Response + (string \<times> SiteCfg)" where
  "resolve_site cfg r =
     (if Method r = ''OPTIONS'' then
        Inl \<lparr>Status = 204,
             RHeader = [''Access-Control-Allow-Methods'' \<mapsto> ''POST, OPTIONS'',
                        ''Access-Control-Allow-Headers'' \<mapsto> ''Content-Type, X-Signature''],
             Written = []\<rparr>
      else if Method r \<noteq> ''POST'' then Inl (http_Error Map.empty ''method not allowed'' 405)
      else let siteKey = TrimPrefix (URL_Path r) ''/v1/contact/'' in
        if siteKey = [] \<or> CHR ''/'' \<in> set siteKey then
          Inl (http_Error Map.empty ''bad site key'' 400)
        else case Sites cfg siteKey of
               None \<Rightarrow> Inl (http_Error Map.empty ''unknown site'' 404)
             | Some cs \<Rightarrow> Inr (siteKey, cs))"

text \<open>Lines 67 to 76: the loop over the allowed origins, leaving at the first match.\<close>

fun cors_loop :: "string \<Rightarrow> string list \<Rightarrow> (string \<rightharpoonup> string) \<Rightarrow> (string \<rightharpoonup> string)" where
  "cors_loop origin [] h = h"
| "cors_loop origin (ao # aos) h =
     (if origin = ao
      then h(''Access-Control-Allow-Origin'' \<mapsto> origin, ''Vary'' \<mapsto> ''Origin'')
      else cors_loop origin aos h)"

definition cors :: "SiteCfg \<Rightarrow> Request \<Rightarrow> (string \<rightharpoonup> string) \<Rightarrow> (string \<rightharpoonup> string)" where
  "cors cs r h =
     (if length (AllowedOrigins cs) > 0
      then cors_loop (Header_Get (Header r) ''Origin'') (AllowedOrigins cs) h
      else h)"

text \<open>\<open>io.ReadAll(io.LimitReader(r.Body, n))\<close>; \<open>None\<close> is a read error.\<close>

definition ReadAll_Limit :: "Request \<Rightarrow> int \<Rightarrow> string option" where
  "ReadAll_Limit r n =
     (if n \<le> 0 then Some []
      else if n \<le> int (length (Body r)) then Some (take (nat n) (Body r))
      else if BodyError r then None
      else Some (Body r))"

text \<open>Lines 87 to 99: the body, read up to the ceiling plus one byte.\<close>

definition read_body :: "Config \<Rightarrow> Request \<Rightarrow> (string \<times> nat) + string" where
  "read_body cfg r =
     (let maxBytes = wrap64 (MaxBodyKB cfg * 1024) in
      case ReadAll_Limit r (wrap64 (maxBytes + 1)) of
        None \<Rightarrow> Inl (''read error'', 400)
      | Some body \<Rightarrow>
          if int (length body) > maxBytes then Inl (''payload too large'', 413)
          else Inr body)"

text \<open>Lines 114 to 138: the switch on the content type.\<close>

definition decode :: "Deps \<Rightarrow> Config \<Rightarrow> Request \<Rightarrow> string \<Rightarrow> (string \<times> nat) + ContactRequest" where
  "decode deps cfg r body =
     (let ct = Header_Get (Header r) ''Content-Type'' in
      if HasPrefix ct ''application/json'' \<and> AllowJSON cfg then
        (case json_Decode deps body of
           None \<Rightarrow> Inl (''bad json'', 400)
         | Some p \<Rightarrow> Inr p)
      else if AllowForm cfg then
        (case ParseForm deps ct (URL_RawQuery r) body of
           None \<Rightarrow> Inl (''bad form'', 400)
         | Some form \<Rightarrow>
             Inr \<lparr>Name = form ''name'', Email = form ''email'',
                  Message = form ''message'', Website = form ''website''\<rparr>)
      else Inl (''unsupported content type'', 415))"

text \<open>Line 141: the condition under which the submission is rejected.\<close>

definition invalid_submission :: "ContactRequest \<Rightarrow> bool" where
  "invalid_submission p =
     (Website p \<noteq> [] \<or> Name p = [] \<or> \<not> MatchString emailRegex (Email p)
      \<or> TrimSpace (Message p) = [])"

text \<open>Lines 148 to 159: the outbound message.\<close>

definition compose :: "SiteCfg \<Rightarrow> ContactRequest \<Rightarrow> string \<Rightarrow> EmailMsg" where
  "compose cs p ip =
     (let subject = TrimSpace (SubjectPrefix cs @ '' New contact'');
          msg = ''Site: '' @ Key cs @ [CHR 0x0A] @ ''From: '' @ Name p @ '' <'' @ Email p @ ''>''
                @ [CHR 0x0A] @ ''IP: '' @ ip @ [CHR 0x0A, CHR 0x0A] @ Message p @ [CHR 0x0A]
      in \<lparr>Email_From = FromAddr cs,
          Email_To = [To cs],
          Email_ReplyTo = [Name p @ '' <'' @ Email p @ ''>''],
          Email_Subject = subject,
          Email_Text = msg\<rparr>)"

text \<open>
  The handler: the response, the bucket map after the call and the message handed to
  \<open>sendEmailFunc\<close>, if the request got that far.
\<close>

definition HandleContact ::
  "Deps \<Rightarrow> Config \<Rightarrow> int \<Rightarrow> buckets \<Rightarrow> Request \<Rightarrow> Response \<times> buckets \<times> EmailMsg option" where
  "HandleContact deps cfg now bs r =
     (case resolve_site cfg r of
        Inl resp \<Rightarrow> (resp, bs, None)
      | Inr (siteKey, cs) \<Rightarrow>
          let h = cors cs r Map.empty;
              ip = clientIP deps r;
              (ok, bs1) = Allow now bs siteKey ip (RateBurst cfg) (RateRefillMinutes cfg)
          in if \<not> ok then (http_Error h ''rate limited'' 429, bs1, None)
             else case read_body cfg r of
               Inl (msg, code) \<Rightarrow> (http_Error h msg code, bs1, None)
             | Inr body \<Rightarrow>
                 if Secret cs \<noteq> []
                    \<and> \<not> verifyHMAC deps body (Secret cs) (Header_Get (Header r) ''X-Signature'')
                 then (http_Error h ''unauthorized'' 401, bs1, None)
                 else case decode deps cfg r body of
                   Inl (msg, code) \<Rightarrow> (http_Error h msg code, bs1, None)
                 | Inr p \<Rightarrow>
                     if invalid_submission p
                     then (http_Error h ''invalid submission'' 400, bs1, None)
                     else let e = compose cs p ip in
                       case sendEmailFunc deps cs e of
                         Some err \<Rightarrow> (http_Error h ''failed to send'' 500, bs1, Some e)
                       | None \<Rightarrow>
                           (\<lparr>Status = 200,
                             RHeader = h(''Content-Type'' \<mapsto> ''application/json''),
                             Written = ''{'' @ [CHR 0x22] @ ''ok'' @ [CHR 0x22] @ '':true}''
                                       @ [CHR 0x0A]\<rparr>,
                            bs1, Some e))"

text \<open>A run of requests through the handler, one after the other on the same bucket
  map; the status codes are collected in order.\<close>

fun HandleContact_seq ::
  "Deps \<Rightarrow> Config \<Rightarrow> buckets \<Rightarrow> (int \<times> Request) list \<Rightarrow> nat list \<times> buckets" where
  "HandleContact_seq deps cfg bs [] = ([], bs)"
| "HandleContact_seq deps cfg bs ((now, r) # rs) =
     (let (resp, bs1, sent) = HandleContact deps cfg now bs r;
          (codes, bs2) = HandleContact_seq deps cfg bs1 rs
      in (Status resp # codes, bs2))"

section \<open>The validation rule in the words of the specification\<close>

text \<open>
  The specification describes the e-mail pattern as a local part without white space or
  \<open>@\<close>, then \<open>@\<close>, then a domain without white space that contains at least one dot.
  Since the local part has no \<open>@\<close> and is followed by one, it ends at the first \<open>@\<close> of
  the string.  White space is taken as the class \<open>\s\<close> of the code's pattern.
\<close>

definition email_pattern_spec :: "string \<Rightarrow> bool" where
  "email_pattern_spec s =
     (let local = takeWhile (\<lambda>c. c \<noteq> CHR ''@'') s;
          domain = drop (length local + 1) s
      in local \<noteq> [] \<and> list_all (\<lambda>c. \<not> reSpace c) local
         \<and> length local < length s
         \<and> list_all (\<lambda>c. \<not> reSpace c) domain \<and> CHR ''.'' \<in> set domain)"

definition invalid_submission_spec :: "ContactRequest \<Rightarrow> bool" where
  "invalid_submission_spec p =
     (Website p \<noteq> [] \<or> Name p = [] \<or> \<not> email_pattern_spec (Email p)
      \<or> TrimSpace (Message p) = [])"

section \<open>Fixtures of the repository's tests\<close>

text \<open>
  The configuration of \<open>setupTestConfig\<close> (burst 1, refill 10 minutes, one site
  \<open>acme\<close>), with the site as a parameter since the tests change its allowed origins;
  the request of \<open>httptest.NewRequest\<close>, a POST to \<open>/v1/contact/acme\<close> from
  \<open>192.0.2.1:1234\<close>; and stand-ins for the code outside the repository: a sender that
  succeeds, as in the tests; a JSON decoder that knows the bodies used below; a form
  parser that knows the form body used below, reads the body only under the content type
  \<open>application/x-www-form-urlencoded\<close>, as the library does, and finds no field
  otherwise (the requests have no query); the host part of an address as what precedes
  its colon; and a keyed function that just joins key and message in the place of
  HMAC-SHA256.
\<close>

definition test_site :: SiteCfg where
  "test_site =
     \<lparr>Key = ''acme'', To = ''ops@example.com'', AllowedOrigins = [],
      SubjectPrefix = ''[Contact]'', Secret = [],
      SMTP = Some \<lparr>Host = ''smtp.example.com'', Port = 587, User = ''user'',
                   Pass = ''pass'', SSL = False\<rparr>,
      FromAddr = ''noreply@example.com''\<rparr>"

definition test_conf :: "SiteCfg \<Rightarrow> Config" where
  "test_conf site =
     \<lparr>RateBurst = 1, RateRefillMinutes = 10, AllowJSON = True, AllowForm = True,
      MaxBodyKB = 1024, ListenAddr = '':0'', Sites = [''acme'' \<mapsto> site]\<rparr>"

definition alice_json :: string where
  \<open>alice_json = ''{"name":"Alice","email":"alice@example.com","message":"Hello there"}''\<close>

definition alice_form :: string where
  "alice_form = ''name=Alice&email=alice%40example.com&message=Hello+there''"

definition alice :: ContactRequest where
  "alice = \<lparr>Name = ''Alice'', Email = ''alice@example.com'', Message = ''Hello there'',
            Website = []\<rparr>"

definition bot_json :: string where
  \<open>bot_json = ''{"name":"Alice","email":"alice@example.com","message":"Hello there","website":"x"}''\<close>

definition nodomain_json :: string where
  \<open>nodomain_json = ''{"name":"Alice","email":"alice@.com","message":"Hello there"}''\<close>

definition test_deps :: Deps where
  "test_deps =
     \<lparr>hmac_sha256 = (\<lambda>key msg. key @ msg),
      json_Decode = (\<lambda>body. if body = alice_json then Some alice
                            else if body = bot_json then Some (alice\<lparr>Website := ''x''\<rparr>)
                            else if body = nodomain_json
                              then Some (alice\<lparr>Email := ''alice@.com''\<rparr>)
                            else None),
      ParseForm = (\<lambda>ct query body.
         if ct = ''application/x-www-form-urlencoded'' \<and> body = alice_form
         then Some (\<lambda>k. if k = ''name'' then Name alice else if k = ''email'' then Email alice
                         else if k = ''message'' then Message alice else [])
         else Some (\<lambda>k. [])),
      SplitHostPort = takeWhile (\<lambda>c. c \<noteq> CHR '':''),
      sendEmailFunc = (\<lambda>cs e. None)\<rparr>"

definition test_request :: "string \<Rightarrow> string \<Rightarrow> (string \<rightharpoonup> string) \<Rightarrow> Request" where
  "test_request ct body extra =
     \<lparr>Method = ''POST'', URL_Path = ''/v1/contact/acme'', URL_RawQuery = [],
      Header = extra(''Content-Type'' \<mapsto> ct), RemoteAddr = ''192.0.2.1:1234'',
      Body = body, BodyError = False\<rparr>"

section \<open>Unfolding the definitions on concrete inputs\<close>

lemmas eval_defs = HandleContact_def resolve_site_def cors_def read_body_def ReadAll_Limit_def
  decode_def invalid_submission_def compose_def clientIP_def verifyHMAC_def Header_Get_def
  http_Error_def TrimPrefix_def HasPrefix_def TrimSpace_def leadingSeq_def spaceSeqs_def
  stripLeading.simps emailRegex_def OneOrMore_def notAtSpace_def reSpace_def
  Allow_def bucket_key_def Sub_def Minutes_int_def wrap64_def maxDuration_def minDuration_def
  test_site_def test_conf_def alice_json_def alice_form_def alice_def bot_json_def
  nodomain_json_def test_deps_def test_request_def
  Let_def ToLower_def EncodeToString_def hexdigit_def

section \<open>Properties of the rate limiter\<close>

subsection \<open>Arithmetic of the clock\<close>

lemma wrap64_id:
  "- 9223372036854775808 \<le> x \<Longrightarrow> x < 9223372036854775808 \<Longrightarrow> wrap64 x = x"
  by (simp add: wrap64_def)

lemma Minutes_int_small: "t - u < 60000000000 \<Longrightarrow> \<not> 0 < Minutes_int (Sub t u)"
  by (auto simp: Minutes_int_def Sub_def Let_def maxDuration_def minDuration_def sgn_if)

lemma Minutes_int_le: "Minutes_int (Sub t u) \<le> 153722867"
  by (auto simp: Minutes_int_def Sub_def Let_def maxDuration_def minDuration_def sgn_if)

lemma Minutes_int_pos: "60000000000 \<le> t - u \<Longrightarrow> 0 < Minutes_int (Sub t u)"
  by (auto simp: Minutes_int_def Sub_def Let_def maxDuration_def minDuration_def sgn_if)

subsection \<open>The three paths through \<open>Allow\<close>\<close>

lemma Allow_new:
  "bs (bucket_key site ip) = None \<Longrightarrow>
   Allow now bs site ip burst r = (True, bs(bucket_key site ip \<mapsto> \<lparr>tokens = burst, ts = now\<rparr>))"
  by (simp add: Allow_def)

lemma Allow_no_refill:
  "bs (bucket_key site ip) = Some b \<Longrightarrow> now - ts b < 60000000000 \<Longrightarrow>
   Allow now bs site ip burst r =
     (if tokens b \<le> 0 then (False, bs(bucket_key site ip \<mapsto> b))
      else (True, bs(bucket_key site ip \<mapsto> b\<lparr>tokens := wrap64 (tokens b - 1)\<rparr>)))"
  by (simp add: Allow_def Let_def Minutes_int_small)

lemma Allow_refill:
  "bs (bucket_key site ip) = Some b \<Longrightarrow> 60000000000 \<le> now - ts b \<Longrightarrow>
   Allow now bs site ip burst r =
     (let t = wrap64 (tokens b + Minutes_int (Sub now (ts b)));
          b1 = \<lparr>tokens = (if t > burst then burst else t), ts = now\<rparr>
      in if tokens b1 \<le> 0 then (False, bs(bucket_key site ip \<mapsto> b1))
         else (True, bs(bucket_key site ip \<mapsto> b1\<lparr>tokens := wrap64 (tokens b1 - 1)\<rparr>)))"
  by (simp add: Allow_def Let_def Minutes_int_pos)

lemma Allow_other:
  "k \<noteq> bucket_key site ip \<Longrightarrow> snd (Allow now bs site ip burst r) k = bs k"
  by (simp add: Allow_def Let_def split: option.split)

lemma Allow_local:
  "bs (bucket_key site ip) = bs' (bucket_key site ip) \<Longrightarrow>
   fst (Allow now bs site ip burst r) = fst (Allow now bs' site ip burst r) \<and>
   snd (Allow now bs site ip burst r) (bucket_key site ip) =
     snd (Allow now bs' site ip burst r) (bucket_key site ip)"
  by (simp add: Allow_def Let_def split: option.split)

lemma Allow_refillMins_unused:
  "Allow now bs site ip burst r = Allow now bs site ip burst r'"
  by (simp add: Allow_def)

lemma Allow_seq_Cons:
  "Allow_seq bs site ip ((now, burst, r) # cs) =
     (fst (Allow now bs site ip burst r) #
        fst (Allow_seq (snd (Allow now bs site ip burst r)) site ip cs),
      snd (Allow_seq (snd (Allow now bs site ip burst r)) site ip cs))"
  by (simp split: prod.split)

lemma Allow_seq_other:
  "k \<noteq> bucket_key site ip \<Longrightarrow> snd (Allow_seq bs site ip cs) k = bs k"
proof (induction cs arbitrary: bs)
  case Nil
  show ?case by simp
next
  case (Cons c cs)
  obtain now burst r where c: "c = (now, burst, r)" by (cases c) auto
  have "snd (Allow_seq (snd (Allow now bs site ip burst r)) site ip cs) k
          = snd (Allow now bs site ip burst r) k"
    by (rule Cons.IH[OF Cons.prems])
  also have "\<dots> = bs k" by (rule Allow_other[OF Cons.prems])
  finally show ?case unfolding c Allow_seq_Cons by simp
qed

lemma Allow_seq_local:
  "bs (bucket_key site ip) = bs' (bucket_key site ip) \<Longrightarrow>
   fst (Allow_seq bs site ip cs) = fst (Allow_seq bs' site ip cs) \<and>
   snd (Allow_seq bs site ip cs) (bucket_key site ip) =
     snd (Allow_seq bs' site ip cs) (bucket_key site ip)"
proof (induction cs arbitrary: bs bs')
  case Nil
  then show ?case by simp
next
  case (Cons c cs)
  obtain now burst r where c: "c = (now, burst, r)" by (cases c) auto
  note step = Allow_local[where bs = bs and bs' = bs' and site = site and ip = ip
      and now = now and burst = burst and r = r, OF Cons.prems]
  from step have bb: "snd (Allow now bs site ip burst r) (bucket_key site ip) =
      snd (Allow now bs' site ip burst r) (bucket_key site ip)" by simp
  note ih = Cons.IH[where bs = "snd (Allow now bs site ip burst r)"
      and bs' = "snd (Allow now bs' site ip burst r)", OF bb]
  from ih step show ?case unfolding c Allow_seq_Cons by simp
qed

lemma bucket_key_inj:
  assumes "CHR ''|'' \<notin> set s1" "CHR ''|'' \<notin> set s2" "bucket_key s1 i1 = bucket_key s2 i2"
  shows "s1 = s2 \<and> i1 = i2"
  using assms
proof (induction s1 arbitrary: s2)
  case Nil
  then show ?case by (cases s2) (auto simp: bucket_key_def)
next
  case (Cons a s1)
  then show ?case by (cases s2) (auto simp: bucket_key_def)
qed

lemma Allow_tokens_within:
  assumes B: "0 \<le> B" "B \<le> 9223372036701052940" and inv: "tokens_within B bs"
  shows "tokens_within B (snd (Allow now bs site ip B r))"
proof (cases "bs (bucket_key site ip)")
  case None
  then show ?thesis using B inv by (auto simp: Allow_new tokens_within_def)
next
  case (Some b)
  then have b: "0 \<le> tokens b" "tokens b \<le> B" using inv by (auto simp: tokens_within_def)
  show ?thesis
  proof (cases "now - ts b < 60000000000")
    case True
    have "wrap64 (tokens b - 1) = tokens b - 1" if "0 < tokens b"
      using that b B by (intro wrap64_id) auto
    then have "Allow now bs site ip B r =
        (if tokens b \<le> 0 then (False, bs(bucket_key site ip \<mapsto> b))
         else (True, bs(bucket_key site ip \<mapsto> b\<lparr>tokens := tokens b - 1\<rparr>)))"
      using Some True by (simp add: Allow_no_refill)
    then show ?thesis using b inv by (auto simp: tokens_within_def)
  next
    case False
    define m where "m = Minutes_int (Sub now (ts b))"
    have m: "0 < m" "m \<le> 153722867"
      using False Minutes_int_pos[of now "ts b"] Minutes_int_le[of now "ts b"]
      by (auto simp: m_def)
    have w: "wrap64 (tokens b + m) = tokens b + m"
      using m b B by (intro wrap64_id) auto
    define t where "t = (if tokens b + m > B then B else tokens b + m)"
    have t: "0 \<le> t" "t \<le> B" using b m B by (auto simp: t_def)
    have w2: "wrap64 (t - 1) = t - 1" if "0 < t"
      using that t B by (intro wrap64_id) auto
    have "Allow now bs site ip B r =
        (if t \<le> 0 then (False, bs(bucket_key site ip \<mapsto> \<lparr>tokens = t, ts = now\<rparr>))
         else (True, bs(bucket_key site ip \<mapsto> \<lparr>tokens = t - 1, ts = now\<rparr>)))"
      using Some False w w2 by (simp add: Allow_refill Let_def m_def[symmetric] t_def[symmetric])
    then show ?thesis using t inv by (auto simp: tokens_within_def)
  qed
qed

section \<open>Properties of the library functions\<close>

subsection \<open>The matcher and the e-mail pattern\<close>

lemma star_Cons_iff:
  "c # w \<in> star A \<longleftrightarrow> (\<exists>u v. w = u @ v \<and> c # u \<in> A \<and> v \<in> star A)"
proof
  assume "c # w \<in> star A"
  then show "\<exists>u v. w = u @ v \<and> c # u \<in> A \<and> v \<in> star A"
  proof (induction "c # w" arbitrary: w rule: star.induct)
    case (star_App u v)
    show ?case
    proof (cases u)
      case Nil
      with star_App show ?thesis by simp
    next
      case (Cons a u')
      with star_App.hyps have "w = u' @ v" "c # u' \<in> A" "v \<in> star A" by auto
      then show ?thesis by blast
    qed
  qed
next
  assume "\<exists>u v. w = u @ v \<and> c # u \<in> A \<and> v \<in> star A"
  then obtain u v where "w = u @ v" "c # u \<in> A" "v \<in> star A" by blast
  then show "c # w \<in> star A" using star_App[of "c # u" A v] by simp
qed

lemma nullable_iff: "nullable r \<longleftrightarrow> [] \<in> lang r"
  by (induction r) (auto intro: star_Nil)

lemma lang_deriv: "w \<in> lang (deriv c r) \<longleftrightarrow> c # w \<in> lang r"
proof (induction r arbitrary: w)
  case (Seq r s)
  show ?case
  proof (cases "nullable r")
    case True
    then have n: "[] \<in> lang r" by (simp add: nullable_iff)
    show ?thesis using True n Seq
      by (auto simp: Cons_eq_append_conv)
  next
    case False
    then have n: "[] \<notin> lang r" by (simp add: nullable_iff)
    show ?thesis using False n Seq
      by (auto simp: Cons_eq_append_conv)
  qed
next
  case (Star r)
  then show ?case by (auto simp: star_Cons_iff)
qed auto

lemma MatchString_lang: "MatchString r s \<longleftrightarrow> s \<in> lang r"
  by (induction s arbitrary: r) (simp_all add: nullable_iff lang_deriv)

lemma star_Atom: "w \<in> star (lang (Atom P)) \<longleftrightarrow> (\<forall>c \<in> set w. P c)"
proof (induction w)
  case Nil
  show ?case by (simp add: star_Nil)
next
  case (Cons a w)
  show ?case using Cons by (auto simp: star_Cons_iff)
qed

lemma lang_OneOrMore_Atom:
  "w \<in> lang (OneOrMore (Atom P)) \<longleftrightarrow> w \<noteq> [] \<and> (\<forall>c \<in> set w. P c)"
proof (cases w)
  case Nil
  then show ?thesis by (simp add: OneOrMore_def)
next
  case (Cons a w')
  have "w \<in> lang (OneOrMore (Atom P)) \<longleftrightarrow> P a \<and> w' \<in> star (lang (Atom P))"
  proof
    assume "w \<in> lang (OneOrMore (Atom P))"
    then show "P a \<and> w' \<in> star (lang (Atom P))"
      unfolding Cons OneOrMore_def by (auto simp: Cons_eq_append_conv)
  next
    assume "P a \<and> w' \<in> star (lang (Atom P))"
    then have "[a] \<in> lang (Atom P)" "w' \<in> lang (Star (Atom P))" by auto
    then have "[a] @ w' \<in> lang (Seq (Atom P) (Star (Atom P)))"
      unfolding lang.simps(5) by blast
    then show "w \<in> lang (OneOrMore (Atom P))" by (simp add: Cons OneOrMore_def)
  qed
  then show ?thesis using Cons star_Atom[of w' P] by simp
qed

lemma emailRegex_iff:
  "MatchString emailRegex s \<longleftrightarrow>
     (\<exists>l a b. s = l @ ''@'' @ a @ ''.'' @ b
        \<and> l \<noteq> [] \<and> (\<forall>c \<in> set l. notAtSpace c)
        \<and> a \<noteq> [] \<and> (\<forall>c \<in> set a. notAtSpace c)
        \<and> b \<noteq> [] \<and> (\<forall>c \<in> set b. notAtSpace c))"
proof -
  have "s \<in> lang emailRegex \<longleftrightarrow>
     (\<exists>l a b. s = l @ ''@'' @ a @ ''.'' @ b
        \<and> l \<in> lang (OneOrMore (Atom notAtSpace))
        \<and> a \<in> lang (OneOrMore (Atom notAtSpace))
        \<and> b \<in> lang (OneOrMore (Atom notAtSpace)))"
    unfolding emailRegex_def lang.simps(5) by (simp del: lang.simps add: lang.simps(3)) blast
  then show ?thesis by (simp only: MatchString_lang lang_OneOrMore_Atom conj_assoc)
qed

subsection \<open>Hexadecimal encoding and lower case\<close>

lemma hexdigit_mem: "n < 16 \<Longrightarrow> hexdigit n \<in> set ''0123456789abcdef''"
  unfolding hexdigit_def by (rule nth_mem) simp

lemma hexdigit_lower:
  assumes "n < 16"
  shows "map_of (zip ''ABCDEFGHIJKLMNOPQRSTUVWXYZ'' ''abcdefghijklmnopqrstuvwxyz'') (hexdigit n) = None"
proof -
  have "\<forall>c \<in> set ''0123456789abcdef''.
      map_of (zip ''ABCDEFGHIJKLMNOPQRSTUVWXYZ'' ''abcdefghijklmnopqrstuvwxyz'') c = None"
    by simp
  then show ?thesis using hexdigit_mem[OF assms] by blast
qed

lemma hexdigit_inj: "n < 16 \<Longrightarrow> m < 16 \<Longrightarrow> hexdigit n = hexdigit m \<Longrightarrow> n = m"
  using nth_eq_iff_index_eq[of "''0123456789abcdef''" n m] by (simp add: hexdigit_def)

lemma EncodeToString_Cons:
  "EncodeToString (b # bs) =
     hexdigit ((of_char b :: nat) div 16) # hexdigit ((of_char b :: nat) mod 16) # EncodeToString bs"
  by (simp add: EncodeToString_def)

lemma of_char_lt: "(of_char (b :: char) :: nat) < 256"
  by (cases b) (simp)

lemma of_char_div16: "(of_char (b :: char) :: nat) div 16 < 16"
  using of_char_lt[of b] by arith

lemma byte_eq:
  assumes "hexdigit ((of_char a :: nat) div 16) = hexdigit ((of_char b :: nat) div 16)"
    and "hexdigit ((of_char a :: nat) mod 16) = hexdigit ((of_char b :: nat) mod 16)"
  shows "a = b"
proof -
  have la: "(of_char a :: nat) div 16 < 16" and lb: "(of_char b :: nat) div 16 < 16"
    by (rule of_char_div16)+
  have d: "(of_char a :: nat) div 16 = of_char b div 16"
    using hexdigit_inj[OF la lb assms(1)] .
  have m: "(of_char a :: nat) mod 16 = of_char b mod 16"
    using hexdigit_inj[OF _ _ assms(2)] by simp
  have "(of_char a :: nat) = of_char b"
    using d m by (metis div_mult_mod_eq)
  then show ?thesis by (metis char_of_char)
qed

lemma EncodeToString_inj: "EncodeToString xs = EncodeToString ys \<Longrightarrow> xs = ys"
proof (induction xs arbitrary: ys)
  case Nil
  then show ?case by (cases ys) (simp_all add: EncodeToString_def)
next
  case (Cons a xs)
  then show ?case
  proof (cases ys)
    case Nil
    with Cons.prems show ?thesis by (simp add: EncodeToString_def)
  next
    case (Cons b ys')
    with Cons.prems Cons.IH[of ys'] show ?thesis
      by (auto simp: EncodeToString_Cons dest: byte_eq)
  qed
qed

lemma ToLower_EncodeToString: "ToLower (EncodeToString xs) = EncodeToString xs"
proof (induction xs)
  case Nil
  show ?case by (simp add: ToLower_def EncodeToString_def)
next
  case (Cons a xs)
  have la: "(of_char a :: nat) div 16 < 16" by (rule of_char_div16)
  have lm: "(of_char a :: nat) mod 16 < 16" by simp
  from Cons hexdigit_lower[OF la] hexdigit_lower[OF lm] show ?case
    by (auto simp: EncodeToString_Cons ToLower_def)
qed

lemma ToLower_Nil_iff: "ToLower s = [] \<longleftrightarrow> s = []"
  by (simp add: ToLower_def)

section \<open>The handler, stage by stage\<close>

lemma Status_http_Error [simp]: "Status (http_Error h msg code) = code"
  by (simp add: http_Error_def)

lemma Written_http_Error [simp]: "Written (http_Error h msg code) = msg @ [CHR 0x0A]"
  by (simp add: http_Error_def)

lemma resolve_site_Inl_Status:
  "resolve_site cfg r = Inl resp \<Longrightarrow> Status resp \<in> {204, 405, 400, 404}"
  by (auto simp: resolve_site_def Let_def split: if_splits option.splits)

lemma read_body_Inl:
  "read_body cfg r = Inl (msg, code) \<Longrightarrow> code = 400 \<or> code = 413"
  by (auto simp: read_body_def Let_def split: if_splits option.splits)

lemma decode_Inl:
  "decode deps cfg r body = Inl (msg, code) \<Longrightarrow>
     (code = 400 \<and> msg \<noteq> ''invalid submission'') \<or>
     (code = 415 \<and> \<not> (HasPrefix (Header_Get (Header r) ''Content-Type'') ''application/json'' \<and> AllowJSON cfg)
        \<and> \<not> AllowForm cfg)"
  by (auto simp: decode_def Let_def split: if_splits option.splits)

lemma decode_Inr:
  "decode deps cfg r body = Inr p \<Longrightarrow>
     (HasPrefix (Header_Get (Header r) ''Content-Type'') ''application/json'' \<and> AllowJSON cfg)
     \<or> AllowForm cfg"
  by (auto simp: decode_def Let_def split: if_splits option.splits)

text \<open>The handler once the site is resolved, with the decision of \<open>Allow\<close> and the
  bucket map it leaves written as projections.\<close>

lemma HandleContact_resolved:
  assumes "resolve_site cfg r = Inr (siteKey, cs)"
  shows "HandleContact deps cfg now bs r =
     (let h = cors cs r Map.empty;
          ip = clientIP deps r;
          a = Allow now bs siteKey ip (RateBurst cfg) (RateRefillMinutes cfg)
      in if \<not> fst a then (http_Error h ''rate limited'' 429, snd a, None)
         else case read_body cfg r of
           Inl (msg, code) \<Rightarrow> (http_Error h msg code, snd a, None)
         | Inr body \<Rightarrow>
             if Secret cs \<noteq> []
                \<and> \<not> verifyHMAC deps body (Secret cs) (Header_Get (Header r) ''X-Signature'')
             then (http_Error h ''unauthorized'' 401, snd a, None)
             else case decode deps cfg r body of
               Inl (msg, code) \<Rightarrow> (http_Error h msg code, snd a, None)
             | Inr p \<Rightarrow>
                 if invalid_submission p
                 then (http_Error h ''invalid submission'' 400, snd a, None)
                 else let e = compose cs p ip in
                   case sendEmailFunc deps cs e of
                     Some err \<Rightarrow> (http_Error h ''failed to send'' 500, snd a, Some e)
                   | None \<Rightarrow>
                       (\<lparr>Status = 200,
                         RHeader = h(''Content-Type'' \<mapsto> ''application/json''),
                         Written = ''{'' @ [CHR 0x22] @ ''ok'' @ [CHR 0x22] @ '':true}''
                                   @ [CHR 0x0A]\<rparr>,
                        snd a, Some e))"
  using assms by (simp add: HandleContact_def Let_def split: prod.split sum.split option.split)

lemma Status_401_iff:
  "Status (fst (HandleContact deps cfg now bs r)) = 401 \<longleftrightarrow>
     (\<exists>siteKey cs body. resolve_site cfg r = Inr (siteKey, cs)
        \<and> fst (Allow now bs siteKey (clientIP deps r) (RateBurst cfg) (RateRefillMinutes cfg))
        \<and> read_body cfg r = Inr body
        \<and> Secret cs \<noteq> []
        \<and> \<not> verifyHMAC deps body (Secret cs) (Header_Get (Header r) ''X-Signature''))"
proof (cases "resolve_site cfg r")
  case (Inl resp)
  then show ?thesis using resolve_site_Inl_Status[OF Inl]
    by (auto simp: HandleContact_def)
next
  case (Inr x)
  obtain siteKey cs where x: "x = (siteKey, cs)" by (cases x)
  note res = Inr[unfolded x]
  show ?thesis
    unfolding HandleContact_resolved[OF res] res
    by (auto simp: Let_def split: sum.splits option.splits dest: read_body_Inl decode_Inl)
qed

lemma Status_415_iff:
  "Status (fst (HandleContact deps cfg now bs r)) = 415 \<longleftrightarrow>
     (\<exists>siteKey cs body. resolve_site cfg r = Inr (siteKey, cs)
        \<and> fst (Allow now bs siteKey (clientIP deps r) (RateBurst cfg) (RateRefillMinutes cfg))
        \<and> read_body cfg r = Inr body
        \<and> \<not> (Secret cs \<noteq> []
             \<and> \<not> verifyHMAC deps body (Secret cs) (Header_Get (Header r) ''X-Signature''))
        \<and> \<not> (HasPrefix (Header_Get (Header r) ''Content-Type'') ''application/json'' \<and> AllowJSON cfg)
        \<and> \<not> AllowForm cfg)"
proof (cases "resolve_site cfg r")
  case (Inl resp)
  then show ?thesis using resolve_site_Inl_Status[OF Inl]
    by (auto simp: HandleContact_def)
next
  case (Inr x)
  obtain siteKey cs where x: "x = (siteKey, cs)" by (cases x)
  note res = Inr[unfolded x]
  have dec: "\<not> (HasPrefix (Header_Get (Header r) ''Content-Type'') ''application/json'' \<and> AllowJSON cfg)
        \<Longrightarrow> \<not> AllowForm cfg \<Longrightarrow> decode deps cfg r body = Inl (''unsupported content type'', 415)" for body
    by (auto simp: decode_def Let_def)
  show ?thesis
    unfolding HandleContact_resolved[OF res] res
    by (auto simp: Let_def dec split: sum.splits option.splits
        dest: read_body_Inl decode_Inl decode_Inr)
qed

lemma Status_429_iff:
  "Status (fst (HandleContact deps cfg now bs r)) = 429 \<longleftrightarrow>
     (\<exists>siteKey cs. resolve_site cfg r = Inr (siteKey, cs)
        \<and> \<not> fst (Allow now bs siteKey (clientIP deps r) (RateBurst cfg) (RateRefillMinutes cfg)))"
proof (cases "resolve_site cfg r")
  case (Inl resp)
  then show ?thesis using resolve_site_Inl_Status[OF Inl]
    by (auto simp: HandleContact_def)
next
  case (Inr x)
  obtain siteKey cs where x: "x = (siteKey, cs)" by (cases x)
  note res = Inr[unfolded x]
  show ?thesis
    unfolding HandleContact_resolved[OF res] res
    by (auto simp: Let_def split: sum.splits option.splits dest: read_body_Inl decode_Inl)
qed

lemma verifyHMAC_iff:
  "verifyHMAC deps body secret sig \<longleftrightarrow>
     secret \<noteq> [] \<and> sig \<noteq> []
     \<and> ToLower sig = ToLower (EncodeToString (hmac_sha256 deps secret body))"
  by (auto simp: verifyHMAC_def Let_def)

lemma HandleContact_validated:
  assumes res: "resolve_site cfg r = Inr (siteKey, cs)"
    and adm: "fst (Allow now bs siteKey (clientIP deps r) (RateBurst cfg) (RateRefillMinutes cfg))"
    and body: "read_body cfg r = Inr body"
    and auth: "Secret cs = [] \<or> verifyHMAC deps body (Secret cs) (Header_Get (Header r) ''X-Signature'')"
    and dec: "decode deps cfg r body = Inr p"
  shows "HandleContact deps cfg now bs r =
     (let bs1 = snd (Allow now bs siteKey (clientIP deps r) (RateBurst cfg) (RateRefillMinutes cfg));
          h = cors cs r Map.empty;
          e = compose cs p (clientIP deps r)
      in if invalid_submission p then (http_Error h ''invalid submission'' 400, bs1, None)
         else case sendEmailFunc deps cs e of
             Some err \<Rightarrow> (http_Error h ''failed to send'' 500, bs1, Some e)
           | None \<Rightarrow>
               (\<lparr>Status = 200, RHeader = h(''Content-Type'' \<mapsto> ''application/json''),
                 Written = ''{'' @ [CHR 0x22] @ ''ok'' @ [CHR 0x22] @ '':true}'' @ [CHR 0x0A]\<rparr>,
                bs1, Some e))"
  unfolding HandleContact_resolved[OF res]
  using adm body auth dec by (auto simp: Let_def)

subsection \<open>The headers of the response\<close>

lemma cors_loop_match:
  "origin \<in> set aos \<Longrightarrow>
   cors_loop origin aos h = h(''Access-Control-Allow-Origin'' \<mapsto> origin, ''Vary'' \<mapsto> ''Origin'')"
  by (induction aos) auto

lemma cors_loop_no_match: "origin \<notin> set aos \<Longrightarrow> cors_loop origin aos h = h"
  by (induction aos) auto

lemma cors_match:
  "Header_Get (Header r) ''Origin'' \<in> set (AllowedOrigins cs) \<Longrightarrow>
   cors cs r h = h(''Access-Control-Allow-Origin'' \<mapsto> Header_Get (Header r) ''Origin'',
                   ''Vary'' \<mapsto> ''Origin'')"
  by (cases "AllowedOrigins cs") (auto simp: cors_def cors_loop_match simp del: cors_loop.simps)

lemma cors_no_match:
  "Header_Get (Header r) ''Origin'' \<notin> set (AllowedOrigins cs) \<Longrightarrow> cors cs r h = h"
  by (simp add: cors_def cors_loop_no_match)

lemma RHeader_cases:
  assumes "resolve_site cfg r = Inr (siteKey, cs)"
  shows "\<exists>msg code. fst (HandleContact deps cfg now bs r) = http_Error (cors cs r Map.empty) msg code
     \<or> fst (HandleContact deps cfg now bs r) =
         \<lparr>Status = 200, RHeader = (cors cs r Map.empty)(''Content-Type'' \<mapsto> ''application/json''),
          Written = ''{'' @ [CHR 0x22] @ ''ok'' @ [CHR 0x22] @ '':true}'' @ [CHR 0x0A]\<rparr>"
  unfolding HandleContact_resolved[OF assms]
  by (auto simp: Let_def split: sum.splits option.splits)

lemma RHeader_other:
  assumes "resolve_site cfg r = Inr (siteKey, cs)"
    and "k \<noteq> ''Content-Type''" "k \<noteq> ''Content-Length''" "k \<noteq> ''X-Content-Type-Options''"
  shows "RHeader (fst (HandleContact deps cfg now bs r)) k = cors cs r Map.empty k"
  using RHeader_cases[OF assms(1), of deps now bs] assms(2-)
  by (auto simp: http_Error_def)

lemma Origin_irrelevant:
  "HandleContact deps cfg now bs (r\<lparr>Header := (Header r)(''Origin'' := v)\<rparr>) =
     (let (resp, rest) = HandleContact deps cfg now bs r;
          (resp', rest') = HandleContact deps cfg now bs (r\<lparr>Header := (Header r)(''Origin'' := v)\<rparr>)
      in (resp\<lparr>RHeader := RHeader resp'\<rparr>, rest))"
proof -
  let ?r' = "r\<lparr>Header := (Header r)(''Origin'' := v)\<rparr>"
  have rs: "resolve_site cfg ?r' = resolve_site cfg r" by (simp add: resolve_site_def Let_def)
  have ip: "clientIP deps ?r' = clientIP deps r" by (simp add: clientIP_def Header_Get_def Let_def)
  have rb: "read_body cfg ?r' = read_body cfg r" by (simp add: read_body_def ReadAll_Limit_def Let_def)
  have sg: "Header_Get (Header ?r') ''X-Signature'' = Header_Get (Header r) ''X-Signature''"
    by (simp add: Header_Get_def)
  have dc: "decode deps cfg ?r' body = decode deps cfg r body" for body
    by (simp add: decode_def Header_Get_def Let_def)
  show ?thesis
  proof (cases "resolve_site cfg r")
    case (Inl resp)
    then show ?thesis using rs by (simp add: HandleContact_def)
  next
    case (Inr x)
    obtain siteKey cs where x: "x = (siteKey, cs)" by (cases x)
    note res = Inr[unfolded x]
    have res': "resolve_site cfg ?r' = Inr (siteKey, cs)" using rs res by simp
    show ?thesis
      unfolding HandleContact_resolved[OF res] HandleContact_resolved[OF res'] ip rb sg dc
      by (auto simp: Let_def http_Error_def split: sum.splits option.splits)
  qed
qed

subsection \<open>The rate limiter inside the handler\<close>

lemma HandleContact_seq_Cons:
  "HandleContact_seq deps cfg bs ((now, r) # rs) =
     (Status (fst (HandleContact deps cfg now bs r)) #
        fst (HandleContact_seq deps cfg (fst (snd (HandleContact deps cfg now bs r))) rs),
      snd (HandleContact_seq deps cfg (fst (snd (HandleContact deps cfg now bs r))) rs))"
  by (simp split: prod.split)

lemma HandleContact_buckets:
  assumes "resolve_site cfg r = Inr (siteKey, cs)"
  shows "fst (snd (HandleContact deps cfg now bs r)) =
     snd (Allow now bs siteKey (clientIP deps r) (RateBurst cfg) (RateRefillMinutes cfg))"
  unfolding HandleContact_resolved[OF assms]
  by (auto simp: Let_def split: sum.splits option.splits)

lemma HandleContact_denied:
  assumes "resolve_site cfg r = Inr (siteKey, cs)"
    and "\<not> fst (Allow now bs siteKey (clientIP deps r) (RateBurst cfg) (RateRefillMinutes cfg))"
  shows "fst (HandleContact deps cfg now bs r)
     = http_Error (cors cs r Map.empty) ''rate limited'' 429"
  unfolding HandleContact_resolved[OF assms(1)] using assms(2) by (simp add: Let_def)

text \<open>What an admitted request is answered does not depend on the clock or the buckets.\<close>

lemma HandleContact_admitted:
  assumes "resolve_site cfg r = Inr (siteKey, cs)"
    and "fst (Allow now bs siteKey (clientIP deps r) (RateBurst cfg) (RateRefillMinutes cfg))"
    and "fst (Allow now' bs' siteKey (clientIP deps r) (RateBurst cfg) (RateRefillMinutes cfg))"
  shows "fst (HandleContact deps cfg now bs r) = fst (HandleContact deps cfg now' bs' r)"
  unfolding HandleContact_resolved[OF assms(1)] using assms(2,3)
  by (auto simp: Let_def split: sum.splits option.splits)

text \<open>
  A run of identical requests, the first of which would be answered 200: each request
  that \<open>Allow\<close> admits is answered 200 and each one it denies 429, and the buckets go
  through the states the calls of \<open>Allow\<close> give them.
\<close>

lemma HandleContact_seq_status:
  assumes res: "resolve_site cfg r = Inr (siteKey, cs)"
    and ok: "Status (fst (HandleContact deps cfg t0 bs0 r)) = 200"
  shows "HandleContact_seq deps cfg bs (map (\<lambda>t. (t, r)) tms) =
     (map (\<lambda>a. if a then 200 else 429)
        (fst (Allow_seq bs siteKey (clientIP deps r)
           (map (\<lambda>t. (t, RateBurst cfg, RateRefillMinutes cfg)) tms))),
      snd (Allow_seq bs siteKey (clientIP deps r)
           (map (\<lambda>t. (t, RateBurst cfg, RateRefillMinutes cfg)) tms)))"
proof (induction tms arbitrary: bs)
  case Nil
  show ?case by simp
next
  case (Cons t tms)
  have adm0: "fst (Allow t0 bs0 siteKey (clientIP deps r) (RateBurst cfg) (RateRefillMinutes cfg))"
    using ok Status_429_iff[of deps cfg t0 bs0 r] res
    by (cases "fst (Allow t0 bs0 siteKey (clientIP deps r) (RateBurst cfg) (RateRefillMinutes cfg))")
      auto
  have st: "Status (fst (HandleContact deps cfg t bs r)) =
      (if fst (Allow t bs siteKey (clientIP deps r) (RateBurst cfg) (RateRefillMinutes cfg))
       then 200 else 429)"
  proof (cases "fst (Allow t bs siteKey (clientIP deps r) (RateBurst cfg) (RateRefillMinutes cfg))")
    case True
    then show ?thesis using HandleContact_admitted[OF res True adm0] ok by simp
  next
    case False
    then show ?thesis using HandleContact_denied[OF res False] by simp
  qed
  show ?case
    unfolding list.map HandleContact_seq_Cons Allow_seq_Cons prod.case
      HandleContact_buckets[OF res] Cons.IH st
    by simp
qed

section \<open>The rate limiter against the specification\<close>

subsection \<open>Admission sequences\<close>

text \<open>
  Claim C1, as the code has it.  A new key gets a bucket holding \<open>burst\<close> tokens and the
  creating call is admitted without taking one.  So with burst 2, from a key that has no
  bucket, four calls less than a minute after the first yield admit, admit, admit, deny,
  and a call a full minute or more after the first is admitted again; with burst 1 three
  such calls yield admit, admit, deny.  Through the handler, for a request of a (tenant,
  client) pair that has no bucket: if the request is answered 200, then with burst 1 three
  copies of it sent within a minute are answered 200, 200 and 429, and with burst 2 and a
  refill interval of one minute four copies sent within a minute and a fifth a full minute
  or more after the first are answered 200, 200, 200, 429 and 200.
\<close>

theorem C1_admission_sequence:
  assumes fresh: "bs (bucket_key site ip) = None"
    and t1: "t1 - t0 < 60000000000" and t2: "t2 - t0 < 60000000000"
    and t3: "t3 - t0 < 60000000000" and t4: "60000000000 \<le> t4 - t0"
  shows "fst (Allow_seq bs site ip [(t0, 2, 1), (t1, 2, 1), (t2, 2, 1), (t3, 2, 1), (t4, 2, 1)])
           = [True, True, True, False, True]
       \<and> fst (Allow_seq bs site ip [(t0, 1, 1), (t1, 1, 1), (t2, 1, 1)]) = [True, True, False]
       \<and> (resolve_site cfg r = Inr (site, cs) \<and> clientIP deps r = ip \<and> RateBurst cfg = 1
            \<and> Status (fst (HandleContact deps cfg t0 bs r)) = 200
          \<longrightarrow> fst (HandleContact_seq deps cfg bs [(t0, r), (t1, r), (t2, r)])
                = [200, 200, 429])
       \<and> (resolve_site cfg r = Inr (site, cs) \<and> clientIP deps r = ip \<and> RateBurst cfg = 2
            \<and> RateRefillMinutes cfg = 1
            \<and> Status (fst (HandleContact deps cfg t0 bs r)) = 200
          \<longrightarrow> fst (HandleContact_seq deps cfg bs [(t0, r), (t1, r), (t2, r), (t3, r), (t4, r)])
                = [200, 200, 200, 429, 200])"
proof -
  have m4: "0 < Minutes_int (Sub t4 t0)" "Minutes_int (Sub t4 t0) \<le> 153722867"
    using Minutes_int_pos[OF t4] Minutes_int_le[of t4 t0] by auto
  then have w: "wrap64 (Minutes_int (Sub t4 t0)) = Minutes_int (Sub t4 t0)"
    by (intro wrap64_id) auto
  have two: "fst (Allow_seq bs site ip [(t0, 2, m), (t1, 2, m), (t2, 2, m), (t3, 2, m), (t4, 2, m)])
           = [True, True, True, False, True]" for m
    using fresh t1 t2 t3 t4 m4 w
    by (simp add: Allow_seq_Cons Allow_new Allow_no_refill Allow_refill Let_def wrap64_def
        del: Allow_seq.simps(2))
  have one: "fst (Allow_seq bs site ip [(t0, 1, m), (t1, 1, m), (t2, 1, m)])
           = [True, True, False]" for m
    using fresh t1 t2
    by (simp add: Allow_seq_Cons Allow_new Allow_no_refill Let_def wrap64_def
        del: Allow_seq.simps(2))
  have h1: "fst (HandleContact_seq deps cfg bs [(t0, r), (t1, r), (t2, r)]) = [200, 200, 429]"
    if a: "resolve_site cfg r = Inr (site, cs) \<and> clientIP deps r = ip \<and> RateBurst cfg = 1
            \<and> Status (fst (HandleContact deps cfg t0 bs r)) = 200"
  proof -
    from a have res: "resolve_site cfg r = Inr (site, cs)"
      and ok: "Status (fst (HandleContact deps cfg t0 bs r)) = 200" by simp_all
    show ?thesis
      using HandleContact_seq_status[OF res ok, of bs "[t0, t1, t2]"] a
        one[of "RateRefillMinutes cfg"]
      by simp
  qed
  have h2: "fst (HandleContact_seq deps cfg bs [(t0, r), (t1, r), (t2, r), (t3, r), (t4, r)])
      = [200, 200, 200, 429, 200]"
    if a: "resolve_site cfg r = Inr (site, cs) \<and> clientIP deps r = ip \<and> RateBurst cfg = 2
            \<and> RateRefillMinutes cfg = 1
            \<and> Status (fst (HandleContact deps cfg t0 bs r)) = 200"
  proof -
    from a have res: "resolve_site cfg r = Inr (site, cs)"
      and ok: "Status (fst (HandleContact deps cfg t0 bs r)) = 200" by simp_all
    show ?thesis
      using HandleContact_seq_status[OF res ok, of bs "[t0, t1, t2, t3, t4]"] a
        two[of "RateRefillMinutes cfg"]
      by simp
  qed
  from two[of 1] one[of 1] h1 h2 show ?thesis by blast
qed

theorem C1_admission_sequence_witness:
  "Map.empty (bucket_key ''acme'' ''192.0.2.1'') = None
   \<and> (1::int) - 0 < 60000000000 \<and> (2::int) - 0 < 60000000000 \<and> (3::int) - 0 < 60000000000
   \<and> (60000000000::int) \<le> 60000000003 - 0
   \<and> fst (Allow_seq Map.empty ''acme'' ''192.0.2.1''
        [(0, 2, 1), (1, 2, 1), (2, 2, 1), (3, 2, 1), (60000000003, 2, 1)])
       = [True, True, True, False, True]
   \<and> fst (Allow_seq Map.empty ''acme'' ''192.0.2.1'' [(0, 1, 1), (1, 1, 1), (2, 1, 1)])
       = [True, True, False]
   \<and> resolve_site (test_conf test_site) (test_request ''application/json'' alice_json Map.empty)
       = Inr (''acme'', test_site)
   \<and> clientIP test_deps (test_request ''application/json'' alice_json Map.empty) = ''192.0.2.1''
   \<and> RateBurst (test_conf test_site) = 1
   \<and> Status (fst (HandleContact test_deps (test_conf test_site) 0 Map.empty
        (test_request ''application/json'' alice_json Map.empty))) = 200
   \<and> fst (HandleContact_seq test_deps (test_conf test_site) Map.empty
        [(0, test_request ''application/json'' alice_json Map.empty),
         (1, test_request ''application/json'' alice_json Map.empty),
         (2, test_request ''application/json'' alice_json Map.empty)]) = [200, 200, 429]
   \<and> resolve_site ((test_conf test_site)\<lparr>RateBurst := 2, RateRefillMinutes := 1\<rparr>)
        (test_request ''application/json'' alice_json Map.empty)
       = Inr (''acme'', test_site)
   \<and> RateBurst ((test_conf test_site)\<lparr>RateBurst := 2, RateRefillMinutes := 1\<rparr>) = 2
   \<and> RateRefillMinutes ((test_conf test_site)\<lparr>RateBurst := 2, RateRefillMinutes := 1\<rparr>) = 1
   \<and> Status (fst (HandleContact test_deps ((test_conf test_site)\<lparr>RateBurst := 2, RateRefillMinutes := 1\<rparr>) 0 Map.empty
        (test_request ''application/json'' alice_json Map.empty))) = 200
   \<and> fst (HandleContact_seq test_deps ((test_conf test_site)\<lparr>RateBurst := 2, RateRefillMinutes := 1\<rparr>) Map.empty
        [(0, test_request ''application/json'' alice_json Map.empty),
         (1, test_request ''application/json'' alice_json Map.empty),
         (2, test_request ''application/json'' alice_json Map.empty),
         (3, test_request ''application/json'' alice_json Map.empty),
         (60000000003, test_request ''application/json'' alice_json Map.empty)])
       = [200, 200, 200, 429, 200]"
proof -
  let ?r = "test_request ''application/json'' alice_json Map.empty"
  let ?c1 = "test_conf test_site"
  let ?c2 = "(test_conf test_site)\<lparr>RateBurst := 2, RateRefillMinutes := 1\<rparr>"
  have fresh: "Map.empty (bucket_key ''acme'' ''192.0.2.1'') = None" by simp
  have t: "(1::int) - 0 < 60000000000" "(2::int) - 0 < 60000000000"
    "(3::int) - 0 < 60000000000" "(60000000000::int) \<le> 60000000003 - 0" by simp_all
  have res1: "resolve_site ?c1 ?r = Inr (''acme'', test_site)" by (simp add: eval_defs)
  have res2: "resolve_site ?c2 ?r = Inr (''acme'', test_site)" by (simp add: eval_defs)
  have ip: "clientIP test_deps ?r = ''192.0.2.1''" by (simp add: eval_defs)
  have b1: "RateBurst ?c1 = 1" by (simp add: test_conf_def)
  have b2: "RateBurst ?c2 = 2" by simp
  have m2: "RateRefillMinutes ?c2 = 1" by simp
  have ok1: "Status (fst (HandleContact test_deps ?c1 0 Map.empty ?r)) = 200"
    by (simp add: eval_defs)
  have ok2: "Status (fst (HandleContact test_deps ?c2 0 Map.empty ?r)) = 200"
    by (simp add: eval_defs)
  note a = C1_admission_sequence [where bs = Map.empty and site = "''acme''"
      and ip = "''192.0.2.1''" and ?t0.0 = 0 and ?t1.0 = 1 and ?t2.0 = 2 and ?t3.0 = 3
      and ?t4.0 = 60000000003 and cfg = ?c1 and r = ?r and cs = test_site and deps = test_deps,
      OF fresh t]
  note b = C1_admission_sequence [where bs = Map.empty and site = "''acme''"
      and ip = "''192.0.2.1''" and ?t0.0 = 0 and ?t1.0 = 1 and ?t2.0 = 2 and ?t3.0 = 3
      and ?t4.0 = 60000000003 and cfg = ?c2 and r = ?r and cs = test_site and deps = test_deps,
      OF fresh t]
  from a res1 ip b1 ok1
  have s1: "fst (HandleContact_seq test_deps ?c1 Map.empty [(0, ?r), (1, ?r), (2, ?r)])
      = [200, 200, 429]" by blast
  from b res2 ip b2 m2 ok2
  have s2: "fst (HandleContact_seq test_deps ?c2 Map.empty
      [(0, ?r), (1, ?r), (2, ?r), (3, ?r), (60000000003, ?r)]) = [200, 200, 200, 429, 200]"
    by blast
  from a fresh t res1 res2 ip b1 b2 m2 ok1 ok2 s1 s2 show ?thesis by blast
qed

text \<open>
  Claim C1 as stated fails: the third immediate call with burst 2 is admitted, and so is
  the immediately repeated call with burst 1, which the handler answers 200 under the
  configuration of the repository's tests.
\<close>

theorem C1_counterexample:
  "fst (Allow_seq Map.empty ''acme'' ''192.0.2.1'' [(0, 2, 1), (0, 2, 1), (0, 2, 1)])
     = [True, True, True]
   \<and> fst (Allow_seq Map.empty ''acme'' ''192.0.2.1'' [(0, 1, 1), (0, 1, 1)]) = [True, True]
   \<and> fst (HandleContact_seq test_deps (test_conf test_site) Map.empty
        [(0, test_request ''application/json'' alice_json Map.empty),
         (0, test_request ''application/json'' alice_json Map.empty)]) = [200, 200]"
  by (simp add: eval_defs)

subsection \<open>The refill unit\<close>

text \<open>
  Claim C2 at a failing input: burst 1 and a refill interval of 10 minutes.  The first two
  calls use up the bucket; the third comes one minute after the first, when no whole
  10-minute interval has elapsed, and is admitted all the same, the bucket's refill instant
  moving to that call.  The code counts whole minutes whatever \<open>refillMins\<close> is.
\<close>

theorem C2_refill_counts_minutes:
  "Allow_seq Map.empty ''acme'' ''192.0.2.1''
     [(0, 1, 10), (0, 1, 10), (60000000000, 1, 10)]
   = ([True, True, True], [''acme|192.0.2.1'' \<mapsto> \<lparr>tokens = 0, ts = 60000000000\<rparr>])"
  by (simp add: Allow_def bucket_key_def Let_def Sub_def Minutes_int_def wrap64_def
      maxDuration_def minDuration_def)

subsection \<open>Independence of buckets\<close>

text \<open>
  Claim C6, as the code has it.  The composite key is the tenant key, a bar and the client
  identity.  Two distinct pairs whose tenant keys contain no bar have different composite
  keys.  For two pairs with different composite keys, any run of calls for the first pair
  leaves the bucket of the second as it was, and every later run of calls for the second
  pair gives the decisions, and leaves the second pair's bucket, as if the first pair's
  calls had not been made.
\<close>

theorem C6_buckets_independent:
  "((s1, i1) \<noteq> (s2, i2) \<and> CHR ''|'' \<notin> set s1 \<and> CHR ''|'' \<notin> set s2
      \<longrightarrow> bucket_key s1 i1 \<noteq> bucket_key s2 i2)
   \<and> (bucket_key s1 i1 \<noteq> bucket_key s2 i2 \<longrightarrow>
        snd (Allow_seq bs s1 i1 cs1) (bucket_key s2 i2) = bs (bucket_key s2 i2)
        \<and> fst (Allow_seq (snd (Allow_seq bs s1 i1 cs1)) s2 i2 cs2) = fst (Allow_seq bs s2 i2 cs2)
        \<and> snd (Allow_seq (snd (Allow_seq bs s1 i1 cs1)) s2 i2 cs2) (bucket_key s2 i2)
            = snd (Allow_seq bs s2 i2 cs2) (bucket_key s2 i2))"
proof (intro conjI impI)
  assume "(s1, i1) \<noteq> (s2, i2) \<and> CHR ''|'' \<notin> set s1 \<and> CHR ''|'' \<notin> set s2"
  then show "bucket_key s1 i1 \<noteq> bucket_key s2 i2"
    using bucket_key_inj[of s1 s2 i1 i2] by auto
next
  assume ne: "bucket_key s1 i1 \<noteq> bucket_key s2 i2"
  then have k: "bucket_key s2 i2 \<noteq> bucket_key s1 i1" by simp
  show same: "snd (Allow_seq bs s1 i1 cs1) (bucket_key s2 i2) = bs (bucket_key s2 i2)"
    by (rule Allow_seq_other[OF k])
  note loc = Allow_seq_local[where bs = "snd (Allow_seq bs s1 i1 cs1)" and bs' = bs
      and site = s2 and ip = i2 and cs = cs2, OF same]
  from loc show "fst (Allow_seq (snd (Allow_seq bs s1 i1 cs1)) s2 i2 cs2)
      = fst (Allow_seq bs s2 i2 cs2)" by simp
  from loc show "snd (Allow_seq (snd (Allow_seq bs s1 i1 cs1)) s2 i2 cs2) (bucket_key s2 i2)
      = snd (Allow_seq bs s2 i2 cs2) (bucket_key s2 i2)" by simp
qed

theorem C6_buckets_independent_witness:
  "(''acme'', ''192.0.2.1'') \<noteq> (''acme'', ''192.0.2.2'')
   \<and> CHR ''|'' \<notin> set ''acme''
   \<and> bucket_key ''acme'' ''192.0.2.1'' \<noteq> bucket_key ''acme'' ''192.0.2.2''
   \<and> snd (Allow_seq Map.empty ''acme'' ''192.0.2.1'' [(0, 1, 1), (0, 1, 1), (0, 1, 1)])
        (bucket_key ''acme'' ''192.0.2.2'') = None
   \<and> fst (Allow_seq
        (snd (Allow_seq Map.empty ''acme'' ''192.0.2.1'' [(0, 1, 1), (0, 1, 1), (0, 1, 1)]))
        ''acme'' ''192.0.2.2'' [(0, 1, 1)])
       = fst (Allow_seq Map.empty ''acme'' ''192.0.2.2'' [(0, 1, 1)])"
  using C6_buckets_independent [of "''acme''" "''192.0.2.1''" "''acme''" "''192.0.2.2''"
      Map.empty "[(0, 1, 1), (0, 1, 1), (0, 1, 1)]" "[(0, 1, 1)]"]
  by simp

text \<open>
  Claim C6 as stated fails for distinct pairs whose composite keys coincide: tenant
  \<open>a|b\<close> with client \<open>c\<close> and tenant \<open>a\<close> with client \<open>b|c\<close> share the key \<open>a|b|c\<close>.
  With burst 1, a first call for the second pair is admitted on an empty map and denied
  after the first pair has used up the shared bucket.
\<close>

theorem C6_counterexample:
  "(''a|b'', ''c'') \<noteq> (''a'', ''b|c'')
   \<and> fst (Allow 0 Map.empty ''a'' ''b|c'' 1 1) = True
   \<and> fst (Allow 0 (snd (Allow_seq Map.empty ''a|b'' ''c'' [(0, 1, 1), (0, 1, 1)]))
          ''a'' ''b|c'' 1 1) = False"
  by (simp add: Allow_def bucket_key_def Let_def Sub_def Minutes_int_def wrap64_def
      maxDuration_def minDuration_def)

subsection \<open>Bounds on the token count\<close>

text \<open>
  Claim C9, as the code has it.  For a burst \<open>B\<close> with \<open>0 \<le> B \<le> 2^63 - 1 - 153722867\<close>
  (so that \<open>B\<close> plus the largest number of minutes a \<open>Duration\<close> can hold fits in an
  \<open>int\<close>) supplied to every call, the token count of every bucket stays between \<open>0\<close> and
  \<open>B\<close> across every run of \<open>Allow\<close> calls.
\<close>

theorem C9_tokens_within_burst:
  assumes "0 \<le> B" "B \<le> 9223372036701052940" "tokens_within B bs"
  shows "tokens_within B (Allow_calls bs B cs)"
  using assms(3)
proof (induction cs arbitrary: bs)
  case Nil
  then show ?case by simp
next
  case (Cons c cs)
  obtain now site ip r where c: "c = (now, site, ip, r)" by (cases c) auto
  show ?case unfolding c Allow_calls.simps
    by (rule Cons.IH) (rule Allow_tokens_within[OF assms(1,2) Cons.prems])
qed

theorem C9_tokens_within_burst_witness:
  "(0::int) \<le> 3 \<and> (3::int) \<le> 9223372036701052940 \<and> tokens_within 3 Map.empty
   \<and> tokens_within 3 (Allow_calls Map.empty 3
        [(0, ''acme'', ''192.0.2.1'', 1), (5, ''acme'', ''192.0.2.1'', 1),
         (120000000000, ''acme'', ''192.0.2.1'', 1)])"
proof -
  have e: "tokens_within 3 Map.empty" by (simp add: tokens_within_def)
  show ?thesis
    using e C9_tokens_within_burst [of 3 Map.empty
        "[(0, ''acme'', ''192.0.2.1'', 1), (5, ''acme'', ''192.0.2.1'', 1),
          (120000000000, ''acme'', ''192.0.2.1'', 1)]"]
    by simp
qed

text \<open>
  Claim C9 as stated fails at the largest burst an \<open>int\<close> holds: the bucket is created
  with \<open>2^63 - 1\<close> tokens, and a call one minute later adds one token, which wraps around
  to \<open>- 2^63\<close>; the cap does not apply and the bucket keeps a negative count.
\<close>

theorem C9_counterexample:
  "map_option tokens
     (snd (Allow 60000000000
            (snd (Allow 0 Map.empty ''acme'' ''192.0.2.1'' 9223372036854775807 1))
            ''acme'' ''192.0.2.1'' 9223372036854775807 1) ''acme|192.0.2.1'')
   = Some (- 9223372036854775808)"
  by (simp add: Allow_def bucket_key_def Let_def Sub_def Minutes_int_def wrap64_def
      maxDuration_def minDuration_def)

section \<open>The handler against the specification\<close>

subsection \<open>The wildcard entry\<close>

text \<open>
  Claim C3 at the input of the repository's test \<open>TestHandleContactCORSWildcard\<close>: the
  site allows the single origin \<open>*\<close> and the request comes with the origin
  \<open>https://any.origin.com\<close>.  The loop compares the origin with each entry for equality
  only, so the request is served (200) and the response carries neither an
  \<open>Access-Control-Allow-Origin\<close> nor a \<open>Vary\<close> header, where the claim and the test expect
  the permissive header.
\<close>

theorem C3_wildcard_not_matched:
  "Status (fst (HandleContact test_deps (test_conf (test_site\<lparr>AllowedOrigins := [''*'']\<rparr>)) 0
      Map.empty
      (test_request ''application/json'' alice_json [''Origin'' \<mapsto> ''https://any.origin.com'']))) = 200
   \<and> RHeader (fst (HandleContact test_deps (test_conf (test_site\<lparr>AllowedOrigins := [''*'']\<rparr>)) 0
      Map.empty
      (test_request ''application/json'' alice_json [''Origin'' \<mapsto> ''https://any.origin.com''])))
      ''Access-Control-Allow-Origin'' = None
   \<and> RHeader (fst (HandleContact test_deps (test_conf (test_site\<lparr>AllowedOrigins := [''*'']\<rparr>)) 0
      Map.empty
      (test_request ''application/json'' alice_json [''Origin'' \<mapsto> ''https://any.origin.com''])))
      ''Vary'' = None"
  by (simp add: eval_defs)

subsection \<open>Authentication\<close>

text \<open>
  Claim C4.  The handler answers 401 exactly when the request has reached the signature
  check (site resolved, admitted by the rate limiter, body read) and the site's secret is
  not empty and \<open>verifyHMAC\<close> fails.  \<open>verifyHMAC\<close> is a total function; it is false for
  an empty secret and for an empty signature, and otherwise true exactly when the
  signature equals, up to the case of its letters, the hexadecimal encoding of the keyed
  hash of the body.  So a request to a site without a secret is never answered 401, two
  signatures that differ in case only get the same verdict, and a signature that verifies
  a body verifies another body exactly when the keyed hashes of the two bodies are equal:
  the encoding is injective and adds no collision to those of the hash.
\<close>

theorem C4_authentication:
  "(Status (fst (HandleContact deps cfg now bs r)) = 401 \<longleftrightarrow>
     (\<exists>siteKey cs body. resolve_site cfg r = Inr (siteKey, cs)
        \<and> fst (Allow now bs siteKey (clientIP deps r) (RateBurst cfg) (RateRefillMinutes cfg))
        \<and> read_body cfg r = Inr body
        \<and> Secret cs \<noteq> []
        \<and> \<not> verifyHMAC deps body (Secret cs) (Header_Get (Header r) ''X-Signature'')))
   \<and> \<not> verifyHMAC deps body [] sig
   \<and> \<not> verifyHMAC deps body secret []
   \<and> (verifyHMAC deps body secret sig \<longleftrightarrow>
        secret \<noteq> [] \<and> sig \<noteq> []
        \<and> ToLower sig = ToLower (EncodeToString (hmac_sha256 deps secret body)))
   \<and> (resolve_site cfg r = Inr (siteKey, cs) \<and> Secret cs = []
        \<longrightarrow> Status (fst (HandleContact deps cfg now bs r)) \<noteq> 401)
   \<and> (ToLower sig = ToLower sig'
        \<longrightarrow> verifyHMAC deps body secret sig' = verifyHMAC deps body secret sig)
   \<and> (verifyHMAC deps body secret sig
        \<longrightarrow> (verifyHMAC deps body' secret sig
              \<longleftrightarrow> hmac_sha256 deps secret body' = hmac_sha256 deps secret body))"
proof (intro conjI impI)
  show "Status (fst (HandleContact deps cfg now bs r)) = 401 \<longleftrightarrow>
     (\<exists>siteKey cs body. resolve_site cfg r = Inr (siteKey, cs)
        \<and> fst (Allow now bs siteKey (clientIP deps r) (RateBurst cfg) (RateRefillMinutes cfg))
        \<and> read_body cfg r = Inr body
        \<and> Secret cs \<noteq> []
        \<and> \<not> verifyHMAC deps body (Secret cs) (Header_Get (Header r) ''X-Signature''))"
    by (rule Status_401_iff)
  show "\<not> verifyHMAC deps body [] sig" by (simp add: verifyHMAC_def)
  show "\<not> verifyHMAC deps body secret []" by (simp add: verifyHMAC_def)
  show "verifyHMAC deps body secret sig \<longleftrightarrow>
        secret \<noteq> [] \<and> sig \<noteq> []
        \<and> ToLower sig = ToLower (EncodeToString (hmac_sha256 deps secret body))"
    by (rule verifyHMAC_iff)
next
  assume "resolve_site cfg r = Inr (siteKey, cs) \<and> Secret cs = []"
  then show "Status (fst (HandleContact deps cfg now bs r)) \<noteq> 401"
    by (auto simp: Status_401_iff)
next
  assume "ToLower sig = ToLower sig'"
  moreover from this have "sig = [] \<longleftrightarrow> sig' = []" by (metis ToLower_Nil_iff)
  ultimately show "verifyHMAC deps body secret sig' = verifyHMAC deps body secret sig"
    by (simp add: verifyHMAC_iff)
next
  assume v: "verifyHMAC deps body secret sig"
  show "verifyHMAC deps body' secret sig
          \<longleftrightarrow> hmac_sha256 deps secret body' = hmac_sha256 deps secret body"
  proof
    assume "verifyHMAC deps body' secret sig"
    with v have "EncodeToString (hmac_sha256 deps secret body')
        = EncodeToString (hmac_sha256 deps secret body)"
      by (simp add: verifyHMAC_iff ToLower_EncodeToString)
    then show "hmac_sha256 deps secret body' = hmac_sha256 deps secret body"
      by (rule EncodeToString_inj)
  next
    assume "hmac_sha256 deps secret body' = hmac_sha256 deps secret body"
    with v show "verifyHMAC deps body' secret sig" by (simp add: verifyHMAC_iff)
  qed
qed

theorem C4_authentication_witness:
  "resolve_site (test_conf test_site) (test_request ''application/json'' alice_json Map.empty)
     = Inr (''acme'', test_site)
   \<and> Secret test_site = []
   \<and> Status (fst (HandleContact test_deps (test_conf test_site) 0 Map.empty
        (test_request ''application/json'' alice_json Map.empty))) \<noteq> 401
   \<and> Status (fst (HandleContact test_deps (test_conf (test_site\<lparr>Secret := ''k''\<rparr>)) 0 Map.empty
        (test_request ''application/json'' alice_json Map.empty))) = 401
   \<and> ToLower ''6B6869'' = ToLower ''6b6869''
   \<and> verifyHMAC test_deps ''hi'' ''k'' ''6b6869''
   \<and> verifyHMAC test_deps ''hi'' ''k'' ''6B6869''
   \<and> hmac_sha256 test_deps ''k'' ''ho'' \<noteq> hmac_sha256 test_deps ''k'' ''hi''
   \<and> \<not> verifyHMAC test_deps ''ho'' ''k'' ''6B6869''"
proof -
  let ?r = "test_request ''application/json'' alice_json Map.empty"
  let ?c = "test_conf test_site"
  let ?s = "test_site\<lparr>Secret := ''k''\<rparr>"
  note a = C4_authentication [where deps = test_deps and cfg = ?c and now = 0
      and bs = Map.empty and r = ?r and body = "''hi''" and sig = "''6B6869''"
      and secret = "''k''" and siteKey = "''acme''" and cs = test_site
      and sig' = "''6b6869''" and body' = "''ho''"]
  note b = C4_authentication [where deps = test_deps and cfg = "test_conf ?s" and now = 0
      and bs = Map.empty and r = ?r and body = "''hi''" and sig = "''6B6869''"
      and secret = "''k''" and siteKey = "''acme''" and cs = ?s
      and sig' = "''6b6869''" and body' = "''ho''"]
  have res: "resolve_site ?c ?r = Inr (''acme'', test_site)" by (simp add: eval_defs)
  have sec: "Secret test_site = []" by (simp add: test_site_def)
  from a res sec have n401: "Status (fst (HandleContact test_deps ?c 0 Map.empty ?r)) \<noteq> 401"
    by blast
  have res': "resolve_site (test_conf ?s) ?r = Inr (''acme'', ?s)" by (simp add: eval_defs)
  have adm: "fst (Allow 0 Map.empty ''acme'' (clientIP test_deps ?r)
      (RateBurst (test_conf ?s)) (RateRefillMinutes (test_conf ?s)))" by (simp add: eval_defs)
  have rb: "read_body (test_conf ?s) ?r = Inr alice_json" by (simp add: eval_defs)
  have nv: "Secret ?s \<noteq> [] \<and> \<not> verifyHMAC test_deps alice_json (Secret ?s)
      (Header_Get (Header ?r) ''X-Signature'')" by (simp add: eval_defs)
  from b res' adm rb nv
  have is401: "Status (fst (HandleContact test_deps (test_conf ?s) 0 Map.empty ?r)) = 401"
    by blast
  have lo: "ToLower ''6B6869'' = ToLower ''6b6869''" by (simp add: ToLower_def)
  have v1: "verifyHMAC test_deps ''hi'' ''k'' ''6b6869''" by (simp add: eval_defs)
  from a lo v1 have v2: "verifyHMAC test_deps ''hi'' ''k'' ''6B6869''" by blast
  have ne: "hmac_sha256 test_deps ''k'' ''ho'' \<noteq> hmac_sha256 test_deps ''k'' ''hi''"
    by (simp add: test_deps_def)
  from a v2 ne have v3: "\<not> verifyHMAC test_deps ''ho'' ''k'' ''6B6869''" by blast
  from res sec n401 is401 lo v1 v2 ne v3 show ?thesis by blast
qed

subsection \<open>Validation\<close>

text \<open>
  Claim C5, with the e-mail pattern as the code has it.  A request that has reached the
  validation (site resolved, admitted, body read, signature accepted or not required,
  payload decoded) is answered with the one rejection \<open>invalid submission\<close>, status 400,
  exactly when the honeypot field is not empty, or the name is empty (as decoded, nothing
  trimmed), or the message is empty once the white space around it is trimmed, or the
  e-mail address does not have the form \<open>l@a.b\<close> where each of \<open>l\<close>, \<open>a\<close> and \<open>b\<close> is a
  non-empty string without \<open>@\<close> and without the white space of \<open>\s\<close>: the domain has no
  \<open>@\<close> and has a dot with at least one character before it and one after it.
\<close>

theorem C5_validation:
  assumes res: "resolve_site cfg r = Inr (siteKey, cs)"
    and adm: "fst (Allow now bs siteKey (clientIP deps r) (RateBurst cfg) (RateRefillMinutes cfg))"
    and body: "read_body cfg r = Inr body"
    and auth: "Secret cs = [] \<or> verifyHMAC deps body (Secret cs) (Header_Get (Header r) ''X-Signature'')"
    and dec: "decode deps cfg r body = Inr p"
  shows "fst (HandleContact deps cfg now bs r)
           = http_Error (cors cs r Map.empty) ''invalid submission'' 400
         \<longleftrightarrow>
           Website p \<noteq> [] \<or> Name p = []
           \<or> \<not> (\<exists>l a b. Email p = l @ ''@'' @ a @ ''.'' @ b
                  \<and> l \<noteq> [] \<and> (\<forall>c \<in> set l. c \<noteq> CHR ''@'' \<and> \<not> reSpace c)
                  \<and> a \<noteq> [] \<and> (\<forall>c \<in> set a. c \<noteq> CHR ''@'' \<and> \<not> reSpace c)
                  \<and> b \<noteq> [] \<and> (\<forall>c \<in> set b. c \<noteq> CHR ''@'' \<and> \<not> reSpace c))
           \<or> TrimSpace (Message p) = []"
proof -
  have inv: "invalid_submission p \<longleftrightarrow>
           Website p \<noteq> [] \<or> Name p = []
           \<or> \<not> (\<exists>l a b. Email p = l @ ''@'' @ a @ ''.'' @ b
                  \<and> l \<noteq> [] \<and> (\<forall>c \<in> set l. c \<noteq> CHR ''@'' \<and> \<not> reSpace c)
                  \<and> a \<noteq> [] \<and> (\<forall>c \<in> set a. c \<noteq> CHR ''@'' \<and> \<not> reSpace c)
                  \<and> b \<noteq> [] \<and> (\<forall>c \<in> set b. c \<noteq> CHR ''@'' \<and> \<not> reSpace c))
           \<or> TrimSpace (Message p) = []"
    unfolding invalid_submission_def emailRegex_iff notAtSpace_def ..
  have "fst (HandleContact deps cfg now bs r)
           = http_Error (cors cs r Map.empty) ''invalid submission'' 400
        \<longleftrightarrow> invalid_submission p"
  proof
    assume eq: "fst (HandleContact deps cfg now bs r)
           = http_Error (cors cs r Map.empty) ''invalid submission'' 400"
    show "invalid_submission p"
    proof (rule ccontr)
      assume "\<not> invalid_submission p"
      then have "Status (fst (HandleContact deps cfg now bs r)) \<noteq> 400"
        unfolding HandleContact_validated[OF res adm body auth dec]
        by (simp add: Let_def split: option.split)
      with eq show False by simp
    qed
  next
    assume "invalid_submission p"
    then show "fst (HandleContact deps cfg now bs r)
           = http_Error (cors cs r Map.empty) ''invalid submission'' 400"
      unfolding HandleContact_validated[OF res adm body auth dec] by (simp add: Let_def)
  qed
  then show ?thesis unfolding inv .
qed

theorem C5_validation_witness:
  "resolve_site (test_conf test_site) (test_request ''application/json'' bot_json Map.empty)
     = Inr (''acme'', test_site)
   \<and> fst (Allow 0 Map.empty ''acme''
        (clientIP test_deps (test_request ''application/json'' bot_json Map.empty))
        (RateBurst (test_conf test_site)) (RateRefillMinutes (test_conf test_site)))
   \<and> read_body (test_conf test_site) (test_request ''application/json'' bot_json Map.empty)
        = Inr bot_json
   \<and> Secret test_site = []
   \<and> decode test_deps (test_conf test_site)
        (test_request ''application/json'' bot_json Map.empty) bot_json
        = Inr (alice\<lparr>Website := ''x''\<rparr>)
   \<and> Website (alice\<lparr>Website := ''x''\<rparr>) \<noteq> []
   \<and> fst (HandleContact test_deps (test_conf test_site) 0 Map.empty
        (test_request ''application/json'' bot_json Map.empty))
       = http_Error Map.empty ''invalid submission'' 400"
proof -
  let ?r = "test_request ''application/json'' bot_json Map.empty"
  have h1: "resolve_site (test_conf test_site) ?r = Inr (''acme'', test_site)"
    by (simp add: eval_defs)
  have h2: "fst (Allow 0 Map.empty ''acme'' (clientIP test_deps ?r)
        (RateBurst (test_conf test_site)) (RateRefillMinutes (test_conf test_site)))"
    by (simp add: eval_defs)
  have h3: "read_body (test_conf test_site) ?r = Inr bot_json"
    by (simp add: eval_defs)
  have h4: "Secret test_site = []" by (simp add: test_site_def)
  have h4': "Secret test_site = [] \<or> verifyHMAC test_deps bot_json (Secret test_site)
      (Header_Get (Header ?r) ''X-Signature'')" using h4 by simp
  have h5: "decode test_deps (test_conf test_site) ?r bot_json = Inr (alice\<lparr>Website := ''x''\<rparr>)"
    by (simp add: eval_defs)
  have h6: "Website (alice\<lparr>Website := ''x''\<rparr>) \<noteq> []" by simp
  have c: "cors test_site ?r Map.empty = Map.empty" by (simp add: cors_def test_site_def)
  have "fst (HandleContact test_deps (test_conf test_site) 0 Map.empty ?r)
       = http_Error Map.empty ''invalid submission'' 400"
    using C5_validation [OF h1 h2 h3 h4' h5] h6 by (simp add: c)
  with h1 h2 h3 h4 h5 h6 show ?thesis by simp
qed

text \<open>
  Claim C5 as stated fails on the e-mail check.  In \<open>alice@.com\<close> the local part has
  neither white space nor \<open>@\<close>, and the domain \<open>.com\<close> has no white space and contains a
  dot, so the description of the pattern in the specification accepts the address; the
  pattern of the code wants a character between \<open>@\<close> and the dot, and the handler rejects
  the submission, every other field being in order.  Likewise the description accepts
  \<open>a@b@c.d\<close>, whose domain \<open>b@c.d\<close> has no white space and contains a dot, and the code
  rejects it, since its pattern allows no \<open>@\<close> in the domain.
\<close>

theorem C5_counterexample:
  "\<not> invalid_submission_spec (alice\<lparr>Email := ''alice@.com''\<rparr>)
   \<and> invalid_submission (alice\<lparr>Email := ''alice@.com''\<rparr>)
   \<and> \<not> invalid_submission_spec (alice\<lparr>Email := ''a@b@c.d''\<rparr>)
   \<and> invalid_submission (alice\<lparr>Email := ''a@b@c.d''\<rparr>)
   \<and> fst (HandleContact test_deps (test_conf test_site) 0 Map.empty
        (test_request ''application/json'' nodomain_json Map.empty))
       = http_Error Map.empty ''invalid submission'' 400"
  by (simp add: invalid_submission_spec_def email_pattern_spec_def eval_defs)

subsection \<open>The two encodings\<close>

text \<open>
  Claim C7.  Take a request decoded as JSON and a request decoded as a form, to the same
  site and from the same client, whose payloads carry the same name, e-mail address and
  message.  Whenever the handler composes a message for each of them, the two messages
  are equal in every field (sender, recipient, reply-to, subject and text), and they are
  the message composed from these three values.  And it does compose one for each, as
  soon as both requests are admitted and pass the signature check, the form carries no
  honeypot value and the payload is valid.
\<close>

theorem C7_same_message:
  assumes res1: "resolve_site cfg r1 = Inr (siteKey, cs)"
    and res2: "resolve_site cfg r2 = Inr (siteKey, cs)"
    and ip: "clientIP deps r1 = clientIP deps r2"
    and json: "HasPrefix (Header_Get (Header r1) ''Content-Type'') ''application/json'' \<and> AllowJSON cfg"
    and form: "\<not> HasPrefix (Header_Get (Header r2) ''Content-Type'') ''application/json''"
    and body1: "read_body cfg r1 = Inr body1"
    and dec1: "json_Decode deps body1 = Some p"
    and body2: "read_body cfg r2 = Inr body2"
    and dec2: "ParseForm deps (Header_Get (Header r2) ''Content-Type'') (URL_RawQuery r2) body2
                 = Some fm"
    and same: "fm ''name'' = Name p \<and> fm ''email'' = Email p \<and> fm ''message'' = Message p"
  shows "(snd (snd (HandleContact deps cfg t1 b1 r1)) = Some e1
            \<and> snd (snd (HandleContact deps cfg t2 b2 r2)) = Some e2
          \<longrightarrow> e1 = e2 \<and> e1 = compose cs p (clientIP deps r1))
       \<and> (AllowForm cfg \<and> fm ''website'' = [] \<and> \<not> invalid_submission p
            \<and> fst (Allow t1 b1 siteKey (clientIP deps r1) (RateBurst cfg) (RateRefillMinutes cfg))
            \<and> fst (Allow t2 b2 siteKey (clientIP deps r2) (RateBurst cfg) (RateRefillMinutes cfg))
            \<and> (Secret cs = []
                \<or> verifyHMAC deps body1 (Secret cs) (Header_Get (Header r1) ''X-Signature'')
                  \<and> verifyHMAC deps body2 (Secret cs) (Header_Get (Header r2) ''X-Signature''))
          \<longrightarrow> snd (snd (HandleContact deps cfg t1 b1 r1))
                = Some (compose cs p (clientIP deps r1))
              \<and> snd (snd (HandleContact deps cfg t2 b2 r2))
                = Some (compose cs p (clientIP deps r1)))"
proof -
  define p2 where "p2 = \<lparr>Name = fm ''name'', Email = fm ''email'',
      Message = fm ''message'', Website = fm ''website''\<rparr>"
  have d1: "decode deps cfg r1 body1 = Inr p"
    using json dec1 by (simp add: decode_def Let_def)
  have cmp: "compose cs p2 (clientIP deps r2) = compose cs p (clientIP deps r1)"
    using same ip by (simp add: compose_def p2_def)
  have partA: "e1 = e2 \<and> e1 = compose cs p (clientIP deps r1)"
    if sent: "snd (snd (HandleContact deps cfg t1 b1 r1)) = Some e1
            \<and> snd (snd (HandleContact deps cfg t2 b2 r2)) = Some e2"
  proof -
    from sent have sent1: "snd (snd (HandleContact deps cfg t1 b1 r1)) = Some e1"
      and sent2: "snd (snd (HandleContact deps cfg t2 b2 r2)) = Some e2" by simp_all
    have e1: "e1 = compose cs p (clientIP deps r1)"
      using sent1 unfolding HandleContact_resolved[OF res1]
      by (auto simp: Let_def body1 d1 split: if_splits option.splits sum.splits)
    have af: "AllowForm cfg"
      using sent2 form unfolding HandleContact_resolved[OF res2]
      by (auto simp: Let_def body2 decode_def split: if_splits option.splits sum.splits)
    have d2: "decode deps cfg r2 body2 = Inr p2"
      using form af dec2 by (simp add: decode_def Let_def p2_def)
    have e2: "e2 = compose cs p2 (clientIP deps r2)"
      using sent2 unfolding HandleContact_resolved[OF res2]
      by (auto simp: Let_def body2 d2 split: if_splits option.splits sum.splits)
    from e1 e2 cmp show ?thesis by simp
  qed
  have partB: "snd (snd (HandleContact deps cfg t1 b1 r1))
                = Some (compose cs p (clientIP deps r1))
              \<and> snd (snd (HandleContact deps cfg t2 b2 r2))
                = Some (compose cs p (clientIP deps r1))"
    if a: "AllowForm cfg \<and> fm ''website'' = [] \<and> \<not> invalid_submission p
            \<and> fst (Allow t1 b1 siteKey (clientIP deps r1) (RateBurst cfg) (RateRefillMinutes cfg))
            \<and> fst (Allow t2 b2 siteKey (clientIP deps r2) (RateBurst cfg) (RateRefillMinutes cfg))
            \<and> (Secret cs = []
                \<or> verifyHMAC deps body1 (Secret cs) (Header_Get (Header r1) ''X-Signature'')
                  \<and> verifyHMAC deps body2 (Secret cs) (Header_Get (Header r2) ''X-Signature''))"
  proof -
    from a have af: "AllowForm cfg" and valid: "\<not> invalid_submission p"
      and web: "fm ''website'' = []"
      and adm1: "fst (Allow t1 b1 siteKey (clientIP deps r1) (RateBurst cfg) (RateRefillMinutes cfg))"
      and adm2: "fst (Allow t2 b2 siteKey (clientIP deps r2) (RateBurst cfg) (RateRefillMinutes cfg))"
      and auth1: "Secret cs = []
          \<or> verifyHMAC deps body1 (Secret cs) (Header_Get (Header r1) ''X-Signature'')"
      and auth2: "Secret cs = []
          \<or> verifyHMAC deps body2 (Secret cs) (Header_Get (Header r2) ''X-Signature'')"
      by auto
    have d2: "decode deps cfg r2 body2 = Inr p2"
      using form af dec2 by (simp add: decode_def Let_def p2_def)
    have valid2: "\<not> invalid_submission p2"
      using valid same web by (simp add: invalid_submission_def p2_def)
    have s1: "snd (snd (HandleContact deps cfg t1 b1 r1))
        = Some (compose cs p (clientIP deps r1))"
      unfolding HandleContact_validated[OF res1 adm1 body1 auth1 d1] using valid
      by (simp add: Let_def split: option.split)
    have s2: "snd (snd (HandleContact deps cfg t2 b2 r2))
        = Some (compose cs p (clientIP deps r1))"
      unfolding HandleContact_validated[OF res2 adm2 body2 auth2 d2] using valid2 cmp
      by (simp add: Let_def split: option.split)
    from s1 s2 show ?thesis by simp
  qed
  from partA partB show ?thesis by blast
qed

theorem C7_same_message_witness:
  "resolve_site (test_conf test_site) (test_request ''application/json'' alice_json Map.empty)
     = Inr (''acme'', test_site)
   \<and> resolve_site (test_conf test_site)
        (test_request ''application/x-www-form-urlencoded'' alice_form Map.empty)
     = Inr (''acme'', test_site)
   \<and> clientIP test_deps (test_request ''application/json'' alice_json Map.empty)
     = clientIP test_deps (test_request ''application/x-www-form-urlencoded'' alice_form Map.empty)
   \<and> read_body (test_conf test_site) (test_request ''application/json'' alice_json Map.empty)
     = Inr alice_json
   \<and> json_Decode test_deps alice_json = Some alice
   \<and> read_body (test_conf test_site)
        (test_request ''application/x-www-form-urlencoded'' alice_form Map.empty)
     = Inr alice_form
   \<and> AllowForm (test_conf test_site) \<and> \<not> invalid_submission alice \<and> Secret test_site = []
   \<and> snd (snd (HandleContact test_deps (test_conf test_site) 0 Map.empty
        (test_request ''application/json'' alice_json Map.empty)))
       = Some (compose test_site alice ''192.0.2.1'')
   \<and> snd (snd (HandleContact test_deps (test_conf test_site) 0 Map.empty
        (test_request ''application/x-www-form-urlencoded'' alice_form Map.empty)))
       = Some (compose test_site alice ''192.0.2.1'')"
proof -
  let ?r1 = "test_request ''application/json'' alice_json Map.empty"
  let ?r2 = "test_request ''application/x-www-form-urlencoded'' alice_form Map.empty"
  let ?c = "test_conf test_site"
  let ?fm = "\<lambda>k. if k = ''name'' then Name alice else if k = ''email'' then Email alice
                         else if k = ''message'' then Message alice else []"
  have res1: "resolve_site ?c ?r1 = Inr (''acme'', test_site)" by (simp add: eval_defs)
  have res2: "resolve_site ?c ?r2 = Inr (''acme'', test_site)" by (simp add: eval_defs)
  have ip: "clientIP test_deps ?r1 = clientIP test_deps ?r2" by (simp add: eval_defs)
  have ip1: "clientIP test_deps ?r1 = ''192.0.2.1''" by (simp add: eval_defs)
  have json: "HasPrefix (Header_Get (Header ?r1) ''Content-Type'') ''application/json''
      \<and> AllowJSON ?c" by (simp add: eval_defs)
  have form: "\<not> HasPrefix (Header_Get (Header ?r2) ''Content-Type'') ''application/json''"
    by (simp add: eval_defs)
  have body1: "read_body ?c ?r1 = Inr alice_json" by (simp add: eval_defs)
  have dec1: "json_Decode test_deps alice_json = Some alice" by (simp add: test_deps_def)
  have body2: "read_body ?c ?r2 = Inr alice_form" by (simp add: eval_defs)
  have dec2: "ParseForm test_deps (Header_Get (Header ?r2) ''Content-Type'') (URL_RawQuery ?r2)
      alice_form = Some ?fm"
    by (simp add: test_deps_def test_request_def Header_Get_def)
  have same: "?fm ''name'' = Name alice \<and> ?fm ''email'' = Email alice
      \<and> ?fm ''message'' = Message alice" by simp
  have af: "AllowForm ?c" by (simp add: test_conf_def)
  have web: "?fm ''website'' = []" by simp
  have valid: "\<not> invalid_submission alice" by (simp add: eval_defs)
  have adm1: "fst (Allow 0 Map.empty ''acme'' (clientIP test_deps ?r1) (RateBurst ?c)
      (RateRefillMinutes ?c))" by (simp add: eval_defs)
  have adm2: "fst (Allow 0 Map.empty ''acme'' (clientIP test_deps ?r2) (RateBurst ?c)
      (RateRefillMinutes ?c))" by (simp add: eval_defs)
  have sec: "Secret test_site = []" by (simp add: test_site_def)
  note t = C7_same_message [OF res1 res2 ip json form body1 dec1 body2 dec2 same,
      where ?t1.0 = 0 and ?b1.0 = Map.empty and ?t2.0 = 0 and ?b2.0 = Map.empty]
  from t af web valid adm1 adm2 sec
  have "snd (snd (HandleContact test_deps ?c 0 Map.empty ?r1))
          = Some (compose test_site alice (clientIP test_deps ?r1))
      \<and> snd (snd (HandleContact test_deps ?c 0 Map.empty ?r2))
          = Some (compose test_site alice (clientIP test_deps ?r1))"
    by blast
  with res1 res2 ip body1 dec1 body2 af valid sec show ?thesis unfolding ip1 by simp
qed

subsection \<open>The origin of the request\<close>

text \<open>
  Claim C8.  For a request to a known site, the response carries the header
  \<open>Access-Control-Allow-Origin\<close> exactly when the request's \<open>Origin\<close> is one of the site's
  allowed origins, and then its value is that origin as sent, together with
  \<open>Vary: Origin\<close>; otherwise the response has neither header.  Replacing the \<open>Origin\<close>
  header of a request by any other value, or removing it, changes neither the status nor
  the body of the response, nor the buckets, nor the message sent.
\<close>

theorem C8_cors_headers:
  assumes "resolve_site cfg r = Inr (siteKey, cs)"
  shows "RHeader (fst (HandleContact deps cfg now bs r)) ''Access-Control-Allow-Origin''
           = (if Header_Get (Header r) ''Origin'' \<in> set (AllowedOrigins cs)
              then Some (Header_Get (Header r) ''Origin'') else None)
       \<and> RHeader (fst (HandleContact deps cfg now bs r)) ''Vary''
           = (if Header_Get (Header r) ''Origin'' \<in> set (AllowedOrigins cs)
              then Some ''Origin'' else None)
       \<and> Status (fst (HandleContact deps cfg now bs (r\<lparr>Header := (Header r)(''Origin'' := v)\<rparr>)))
           = Status (fst (HandleContact deps cfg now bs r))
       \<and> Written (fst (HandleContact deps cfg now bs (r\<lparr>Header := (Header r)(''Origin'' := v)\<rparr>)))
           = Written (fst (HandleContact deps cfg now bs r))
       \<and> snd (HandleContact deps cfg now bs (r\<lparr>Header := (Header r)(''Origin'' := v)\<rparr>))
           = snd (HandleContact deps cfg now bs r)"
proof (intro conjI)
  have a: "RHeader (fst (HandleContact deps cfg now bs r)) ''Access-Control-Allow-Origin''
      = cors cs r Map.empty ''Access-Control-Allow-Origin''"
    by (rule RHeader_other[OF assms]) simp_all
  have b: "RHeader (fst (HandleContact deps cfg now bs r)) ''Vary'' = cors cs r Map.empty ''Vary''"
    by (rule RHeader_other[OF assms]) simp_all
  show "RHeader (fst (HandleContact deps cfg now bs r)) ''Access-Control-Allow-Origin''
           = (if Header_Get (Header r) ''Origin'' \<in> set (AllowedOrigins cs)
              then Some (Header_Get (Header r) ''Origin'') else None)"
    unfolding a by (simp add: cors_match cors_no_match)
  show "RHeader (fst (HandleContact deps cfg now bs r)) ''Vary''
           = (if Header_Get (Header r) ''Origin'' \<in> set (AllowedOrigins cs)
              then Some ''Origin'' else None)"
    unfolding b by (simp add: cors_match cors_no_match)
next
  note o = Origin_irrelevant[of deps cfg now bs r v]
  show "Status (fst (HandleContact deps cfg now bs (r\<lparr>Header := (Header r)(''Origin'' := v)\<rparr>)))
           = Status (fst (HandleContact deps cfg now bs r))"
    by (subst o) (simp add: Let_def split: prod.split)
  show "Written (fst (HandleContact deps cfg now bs (r\<lparr>Header := (Header r)(''Origin'' := v)\<rparr>)))
           = Written (fst (HandleContact deps cfg now bs r))"
    by (subst o) (simp add: Let_def split: prod.split)
  show "snd (HandleContact deps cfg now bs (r\<lparr>Header := (Header r)(''Origin'' := v)\<rparr>))
           = snd (HandleContact deps cfg now bs r)"
    by (subst o) (simp add: Let_def split: prod.split)
qed

theorem C8_cors_headers_witness:
  "resolve_site (test_conf (test_site\<lparr>AllowedOrigins := [''https://example.com'']\<rparr>))
      (test_request ''application/json'' alice_json [''Origin'' \<mapsto> ''https://example.com''])
     = Inr (''acme'', test_site\<lparr>AllowedOrigins := [''https://example.com'']\<rparr>)
   \<and> RHeader (fst (HandleContact test_deps
        (test_conf (test_site\<lparr>AllowedOrigins := [''https://example.com'']\<rparr>)) 0 Map.empty
        (test_request ''application/json'' alice_json [''Origin'' \<mapsto> ''https://example.com''])))
       ''Access-Control-Allow-Origin'' = Some ''https://example.com''
   \<and> RHeader (fst (HandleContact test_deps
        (test_conf (test_site\<lparr>AllowedOrigins := [''https://example.com'']\<rparr>)) 0 Map.empty
        (test_request ''application/json'' alice_json [''Origin'' \<mapsto> ''https://example.com''])))
       ''Vary'' = Some ''Origin''
   \<and> resolve_site (test_conf (test_site\<lparr>AllowedOrigins := [''https://example.com'']\<rparr>))
      (test_request ''application/json'' alice_json
         [''Origin'' \<mapsto> ''https://blocked.example.com''])
     = Inr (''acme'', test_site\<lparr>AllowedOrigins := [''https://example.com'']\<rparr>)
   \<and> RHeader (fst (HandleContact test_deps
        (test_conf (test_site\<lparr>AllowedOrigins := [''https://example.com'']\<rparr>)) 0 Map.empty
        (test_request ''application/json'' alice_json
           [''Origin'' \<mapsto> ''https://blocked.example.com''])))
       ''Access-Control-Allow-Origin'' = None
   \<and> RHeader (fst (HandleContact test_deps
        (test_conf (test_site\<lparr>AllowedOrigins := [''https://example.com'']\<rparr>)) 0 Map.empty
        (test_request ''application/json'' alice_json
           [''Origin'' \<mapsto> ''https://blocked.example.com''])))
       ''Vary'' = None
   \<and> Status (fst (HandleContact test_deps
        (test_conf (test_site\<lparr>AllowedOrigins := [''https://example.com'']\<rparr>)) 0 Map.empty
        (test_request ''application/json'' alice_json
           [''Origin'' \<mapsto> ''https://blocked.example.com''])))
       = Status (fst (HandleContact test_deps
        (test_conf (test_site\<lparr>AllowedOrigins := [''https://example.com'']\<rparr>)) 0 Map.empty
        (test_request ''application/json'' alice_json [''Origin'' \<mapsto> ''https://example.com''])))
   \<and> Status (fst (HandleContact test_deps
        (test_conf (test_site\<lparr>AllowedOrigins := [''https://example.com'']\<rparr>)) 0 Map.empty
        (test_request ''application/json'' alice_json [''Origin'' \<mapsto> ''https://example.com''])))
       = 200"
proof -
  let ?cs = "test_site\<lparr>AllowedOrigins := [''https://example.com'']\<rparr>"
  let ?r = "test_request ''application/json'' alice_json [''Origin'' \<mapsto> ''https://example.com'']"
  let ?r' = "test_request ''application/json'' alice_json
      [''Origin'' \<mapsto> ''https://blocked.example.com'']"
  have res: "resolve_site (test_conf ?cs) ?r = Inr (''acme'', ?cs)" by (simp add: eval_defs)
  have res': "resolve_site (test_conf ?cs) ?r' = Inr (''acme'', ?cs)" by (simp add: eval_defs)
  have o: "Header_Get (Header ?r) ''Origin'' = ''https://example.com''"
    by (simp add: test_request_def Header_Get_def)
  have o': "Header_Get (Header ?r') ''Origin'' = ''https://blocked.example.com''"
    by (simp add: test_request_def Header_Get_def)
  have ao: "AllowedOrigins ?cs = [''https://example.com'']" by simp
  have upd: "?r\<lparr>Header := (Header ?r)(''Origin'' := Some ''https://blocked.example.com'')\<rparr> = ?r'"
    by (auto simp: test_request_def fun_eq_iff)
  have ok: "Status (fst (HandleContact test_deps (test_conf ?cs) 0 Map.empty ?r)) = 200"
    by (simp add: eval_defs)
  note a = C8_cors_headers [OF res, of test_deps 0 Map.empty "Some ''https://blocked.example.com''",
      unfolded o ao upd]
  note b = C8_cors_headers [OF res', of test_deps 0 Map.empty None, unfolded o' ao]
  from a b res res' ok show ?thesis by simp
qed

subsection \<open>The choice of the decoder\<close>

text \<open>
  Claim C10.  The handler answers 415 exactly when the request has reached the switch on
  the content type (site resolved, admitted, body read, signature accepted or not
  required), the JSON branch is not taken (the content type does not start with
  \<open>application/json\<close>, or JSON is disabled) and forms are disabled.  So with forms enabled
  no request is answered 415, whatever its content type.  With forms enabled, a request
  that does not take the JSON branch goes to the form branch: its payload is what
  \<open>ParseForm\<close> and \<open>Form.Get\<close> give for the four fields; a request that has reached the
  switch is answered \<open>bad form\<close>, status 400, if \<open>ParseForm\<close> fails, and otherwise a
  message is composed from these fields unless they are an invalid submission.
\<close>

theorem C10_decoder_selection:
  "(Status (fst (HandleContact deps cfg now bs r)) = 415 \<longleftrightarrow>
     (\<exists>siteKey cs body. resolve_site cfg r = Inr (siteKey, cs)
        \<and> fst (Allow now bs siteKey (clientIP deps r) (RateBurst cfg) (RateRefillMinutes cfg))
        \<and> read_body cfg r = Inr body
        \<and> \<not> (Secret cs \<noteq> []
             \<and> \<not> verifyHMAC deps body (Secret cs) (Header_Get (Header r) ''X-Signature''))
        \<and> \<not> (HasPrefix (Header_Get (Header r) ''Content-Type'') ''application/json'' \<and> AllowJSON cfg)
        \<and> \<not> AllowForm cfg))
   \<and> (AllowForm cfg \<longrightarrow> Status (fst (HandleContact deps cfg now bs r)) \<noteq> 415)
   \<and> (AllowForm cfg
        \<and> \<not> (HasPrefix (Header_Get (Header r) ''Content-Type'') ''application/json'' \<and> AllowJSON cfg)
        \<longrightarrow> decode deps cfg r body =
            (case ParseForm deps (Header_Get (Header r) ''Content-Type'') (URL_RawQuery r) body of
               None \<Rightarrow> Inl (''bad form'', 400)
             | Some form \<Rightarrow>
                 Inr \<lparr>Name = form ''name'', Email = form ''email'',
                      Message = form ''message'', Website = form ''website''\<rparr>))
   \<and> (AllowForm cfg
        \<and> \<not> (HasPrefix (Header_Get (Header r) ''Content-Type'') ''application/json'' \<and> AllowJSON cfg)
        \<and> resolve_site cfg r = Inr (siteKey, cs)
        \<and> fst (Allow now bs siteKey (clientIP deps r) (RateBurst cfg) (RateRefillMinutes cfg))
        \<and> read_body cfg r = Inr body
        \<and> (Secret cs = [] \<or> verifyHMAC deps body (Secret cs) (Header_Get (Header r) ''X-Signature''))
        \<longrightarrow> (case ParseForm deps (Header_Get (Header r) ''Content-Type'') (URL_RawQuery r) body of
               None \<Rightarrow>
                 fst (HandleContact deps cfg now bs r)
                   = http_Error (cors cs r Map.empty) ''bad form'' 400
             | Some form \<Rightarrow>
                 snd (snd (HandleContact deps cfg now bs r)) =
                   (if invalid_submission \<lparr>Name = form ''name'', Email = form ''email'',
                          Message = form ''message'', Website = form ''website''\<rparr>
                    then None
                    else Some (compose cs \<lparr>Name = form ''name'', Email = form ''email'',
                          Message = form ''message'', Website = form ''website''\<rparr>
                          (clientIP deps r)))))"
proof -
  have c1: "Status (fst (HandleContact deps cfg now bs r)) = 415 \<longleftrightarrow>
     (\<exists>siteKey cs body. resolve_site cfg r = Inr (siteKey, cs)
        \<and> fst (Allow now bs siteKey (clientIP deps r) (RateBurst cfg) (RateRefillMinutes cfg))
        \<and> read_body cfg r = Inr body
        \<and> \<not> (Secret cs \<noteq> []
             \<and> \<not> verifyHMAC deps body (Secret cs) (Header_Get (Header r) ''X-Signature''))
        \<and> \<not> (HasPrefix (Header_Get (Header r) ''Content-Type'') ''application/json'' \<and> AllowJSON cfg)
        \<and> \<not> AllowForm cfg)"
    by (rule Status_415_iff)
  have c2: "Status (fst (HandleContact deps cfg now bs r)) \<noteq> 415" if "AllowForm cfg"
    using that by (simp add: Status_415_iff)
  have c3: "decode deps cfg r body =
            (case ParseForm deps (Header_Get (Header r) ''Content-Type'') (URL_RawQuery r) body of
               None \<Rightarrow> Inl (''bad form'', 400)
             | Some form \<Rightarrow>
                 Inr \<lparr>Name = form ''name'', Email = form ''email'',
                      Message = form ''message'', Website = form ''website''\<rparr>)"
    if "AllowForm cfg
        \<and> \<not> (HasPrefix (Header_Get (Header r) ''Content-Type'') ''application/json'' \<and> AllowJSON cfg)"
    using that by (auto simp: decode_def Let_def)
  have c4: "(case ParseForm deps (Header_Get (Header r) ''Content-Type'') (URL_RawQuery r) body of
               None \<Rightarrow>
                 fst (HandleContact deps cfg now bs r)
                   = http_Error (cors cs r Map.empty) ''bad form'' 400
             | Some form \<Rightarrow>
                 snd (snd (HandleContact deps cfg now bs r)) =
                   (if invalid_submission \<lparr>Name = form ''name'', Email = form ''email'',
                          Message = form ''message'', Website = form ''website''\<rparr>
                    then None
                    else Some (compose cs \<lparr>Name = form ''name'', Email = form ''email'',
                          Message = form ''message'', Website = form ''website''\<rparr>
                          (clientIP deps r))))"
    if a: "AllowForm cfg
        \<and> \<not> (HasPrefix (Header_Get (Header r) ''Content-Type'') ''application/json'' \<and> AllowJSON cfg)
        \<and> resolve_site cfg r = Inr (siteKey, cs)
        \<and> fst (Allow now bs siteKey (clientIP deps r) (RateBurst cfg) (RateRefillMinutes cfg))
        \<and> read_body cfg r = Inr body
        \<and> (Secret cs = [] \<or> verifyHMAC deps body (Secret cs) (Header_Get (Header r) ''X-Signature''))"
  proof -
    from a have res: "resolve_site cfg r = Inr (siteKey, cs)"
      and adm: "fst (Allow now bs siteKey (clientIP deps r) (RateBurst cfg) (RateRefillMinutes cfg))"
      and body: "read_body cfg r = Inr body"
      and auth: "Secret cs = [] \<or> verifyHMAC deps body (Secret cs) (Header_Get (Header r) ''X-Signature'')"
      and br: "AllowForm cfg
        \<and> \<not> (HasPrefix (Header_Get (Header r) ''Content-Type'') ''application/json'' \<and> AllowJSON cfg)"
      by simp_all
    show ?thesis
    proof (cases "ParseForm deps (Header_Get (Header r) ''Content-Type'') (URL_RawQuery r) body")
      case None
      then have d: "decode deps cfg r body = Inl (''bad form'', 400)"
        using c3[OF br] by simp
      show ?thesis
        unfolding HandleContact_resolved[OF res] using adm body auth d None
        by (auto simp: Let_def)
    next
      case (Some form)
      then have d: "decode deps cfg r body = Inr \<lparr>Name = form ''name'', Email = form ''email'',
                      Message = form ''message'', Website = form ''website''\<rparr>"
        using c3[OF br] by simp
      show ?thesis
        unfolding HandleContact_validated[OF res adm body auth d] using Some
        by (simp add: Let_def split: option.split)
    qed
  qed
  from c1 c2 c3 c4 show ?thesis by blast
qed

theorem C10_decoder_selection_witness:
  "AllowForm (test_conf test_site)
   \<and> \<not> (HasPrefix (Header_Get (Header (test_request ''text/plain'' alice_form Map.empty))
            ''Content-Type'') ''application/json'' \<and> AllowJSON (test_conf test_site))
   \<and> resolve_site (test_conf test_site) (test_request ''text/plain'' alice_form Map.empty)
       = Inr (''acme'', test_site)
   \<and> fst (Allow 0 Map.empty ''acme''
        (clientIP test_deps (test_request ''text/plain'' alice_form Map.empty))
        (RateBurst (test_conf test_site)) (RateRefillMinutes (test_conf test_site)))
   \<and> read_body (test_conf test_site) (test_request ''text/plain'' alice_form Map.empty)
       = Inr alice_form
   \<and> Secret test_site = []
   \<and> Status (fst (HandleContact test_deps (test_conf test_site) 0 Map.empty
        (test_request ''text/plain'' alice_form Map.empty))) \<noteq> 415
   \<and> decode test_deps (test_conf test_site) (test_request ''text/plain'' alice_form Map.empty)
        alice_form
       = Inr \<lparr>Name = [], Email = [], Message = [], Website = []\<rparr>
   \<and> snd (snd (HandleContact test_deps (test_conf test_site) 0 Map.empty
        (test_request ''text/plain'' alice_form Map.empty))) = None
   \<and> \<not> (HasPrefix (Header_Get (Header
            (test_request ''application/x-www-form-urlencoded'' alice_form Map.empty))
            ''Content-Type'') ''application/json'' \<and> AllowJSON (test_conf test_site))
   \<and> snd (snd (HandleContact test_deps (test_conf test_site) 0 Map.empty
        (test_request ''application/x-www-form-urlencoded'' alice_form Map.empty)))
       = Some (compose test_site alice ''192.0.2.1'')"
proof -
  let ?r = "test_request ''text/plain'' alice_form Map.empty"
  let ?r2 = "test_request ''application/x-www-form-urlencoded'' alice_form Map.empty"
  let ?c = "test_conf test_site"
  let ?fm = "\<lambda>k. if k = ''name'' then Name alice else if k = ''email'' then Email alice
                         else if k = ''message'' then Message alice else []"
  have a: "AllowForm ?c" by (simp add: test_conf_def)
  have b: "\<not> (HasPrefix (Header_Get (Header ?r) ''Content-Type'') ''application/json''
      \<and> AllowJSON ?c)" by (simp add: eval_defs)
  have b2: "\<not> (HasPrefix (Header_Get (Header ?r2) ''Content-Type'') ''application/json''
      \<and> AllowJSON ?c)" by (simp add: eval_defs)
  have res: "resolve_site ?c ?r = Inr (''acme'', test_site)" by (simp add: eval_defs)
  have res2: "resolve_site ?c ?r2 = Inr (''acme'', test_site)" by (simp add: eval_defs)
  have adm: "fst (Allow 0 Map.empty ''acme'' (clientIP test_deps ?r) (RateBurst ?c)
      (RateRefillMinutes ?c))" by (simp add: eval_defs)
  have adm2: "fst (Allow 0 Map.empty ''acme'' (clientIP test_deps ?r2) (RateBurst ?c)
      (RateRefillMinutes ?c))" by (simp add: eval_defs)
  have rb: "read_body ?c ?r = Inr alice_form" by (simp add: eval_defs)
  have rb2: "read_body ?c ?r2 = Inr alice_form" by (simp add: eval_defs)
  have sec: "Secret test_site = []" by (simp add: test_site_def)
  have pf: "ParseForm test_deps (Header_Get (Header ?r) ''Content-Type'') (URL_RawQuery ?r)
      alice_form = Some (\<lambda>k. [])"
    by (simp add: test_deps_def test_request_def Header_Get_def)
  have pf2: "ParseForm test_deps (Header_Get (Header ?r2) ''Content-Type'') (URL_RawQuery ?r2)
      alice_form = Some ?fm"
    by (simp add: test_deps_def test_request_def Header_Get_def)
  have ip2: "clientIP test_deps ?r2 = ''192.0.2.1''" by (simp add: eval_defs)
  have inv: "invalid_submission \<lparr>Name = [], Email = [], Message = [], Website = []\<rparr>"
    by (simp add: invalid_submission_def)
  have valid: "\<not> invalid_submission alice" by (simp add: eval_defs)
  note t = C10_decoder_selection [where deps = test_deps and cfg = ?c and now = 0
      and bs = Map.empty and r = ?r and body = alice_form and siteKey = "''acme''"
      and cs = test_site]
  note t2 = C10_decoder_selection [where deps = test_deps and cfg = ?c and now = 0
      and bs = Map.empty and r = ?r2 and body = alice_form and siteKey = "''acme''"
      and cs = test_site]
  from t a have c1: "Status (fst (HandleContact test_deps ?c 0 Map.empty ?r)) \<noteq> 415" by blast
  from t a b have "decode test_deps ?c ?r alice_form =
      (case ParseForm test_deps (Header_Get (Header ?r) ''Content-Type'') (URL_RawQuery ?r)
              alice_form of
         None \<Rightarrow> Inl (''bad form'', 400)
       | Some form \<Rightarrow> Inr \<lparr>Name = form ''name'', Email = form ''email'',
                          Message = form ''message'', Website = form ''website''\<rparr>)"
    by blast
  then have c2: "decode test_deps ?c ?r alice_form
      = Inr \<lparr>Name = [], Email = [], Message = [], Website = []\<rparr>"
    unfolding pf by simp
  from t a b res adm rb sec
  have "(case ParseForm test_deps (Header_Get (Header ?r) ''Content-Type'') (URL_RawQuery ?r)
              alice_form of
           None \<Rightarrow> fst (HandleContact test_deps ?c 0 Map.empty ?r)
                   = http_Error (cors test_site ?r Map.empty) ''bad form'' 400
         | Some form \<Rightarrow>
             snd (snd (HandleContact test_deps ?c 0 Map.empty ?r)) =
               (if invalid_submission \<lparr>Name = form ''name'', Email = form ''email'',
                      Message = form ''message'', Website = form ''website''\<rparr>
                then None
                else Some (compose test_site \<lparr>Name = form ''name'', Email = form ''email'',
                      Message = form ''message'', Website = form ''website''\<rparr>
                      (clientIP test_deps ?r))))"
    by blast
  then have c3: "snd (snd (HandleContact test_deps ?c 0 Map.empty ?r)) = None"
    unfolding pf using inv by simp
  from t2 a b2 res2 adm2 rb2 sec
  have "(case ParseForm test_deps (Header_Get (Header ?r2) ''Content-Type'') (URL_RawQuery ?r2)
              alice_form of
           None \<Rightarrow> fst (HandleContact test_deps ?c 0 Map.empty ?r2)
                   = http_Error (cors test_site ?r2 Map.empty) ''bad form'' 400
         | Some form \<Rightarrow>
             snd (snd (HandleContact test_deps ?c 0 Map.empty ?r2)) =
               (if invalid_submission \<lparr>Name = form ''name'', Email = form ''email'',
                      Message = form ''message'', Website = form ''website''\<rparr>
                then None
                else Some (compose test_site \<lparr>Name = form ''name'', Email = form ''email'',
                      Message = form ''message'', Website = form ''website''\<rparr>
                      (clientIP test_deps ?r2))))"
    by blast
  then have c4: "snd (snd (HandleContact test_deps ?c 0 Map.empty ?r2))
      = Some (compose test_site alice ''192.0.2.1'')"
    unfolding pf2 ip2 using valid by (simp add: alice_def)
  from a b res adm rb sec c1 c2 c3 b2 c4 show ?thesis by blast
qed

end
